theory Spec2Isabelle
  imports Complex_Main
begin

section \<open>JavaScript values\<close>

text \<open>
  A JavaScript number is an IEEE double. The code below only compares numbers with the
  literals -90, 90, -180, 180, 0 and 40 and never computes with them, so a finite double
  is modelled by the real number it denotes (every theorem over all reals covers all
  finite doubles; -0 and 0 compare equal in JavaScript and are the same real here). The
  three non-finite doubles are constructors of their own.
\<close>

datatype jsnum = Finite real | PInf | NInf | NaN

text \<open>The operator \<^verbatim>\<open><\<close> on numbers: every comparison with NaN is false.\<close>

fun js_lt :: "jsnum \<Rightarrow> jsnum \<Rightarrow> bool" where
  "js_lt NaN y = False"
| "js_lt x NaN = False"
| "js_lt (Finite a) (Finite b) = (a < b)"
| "js_lt (Finite a) PInf = True"
| "js_lt (Finite a) NInf = False"
| "js_lt PInf y = False"
| "js_lt NInf NInf = False"
| "js_lt NInf y = True"

text \<open>The operator \<^verbatim>\<open><=\<close> on numbers.\<close>

fun js_le :: "jsnum \<Rightarrow> jsnum \<Rightarrow> bool" where
  "js_le NaN y = False"
| "js_le x NaN = False"
| "js_le (Finite a) (Finite b) = (a \<le> b)"
| "js_le (Finite a) PInf = True"
| "js_le (Finite a) NInf = False"
| "js_le PInf PInf = True"
| "js_le PInf y = False"
| "js_le NInf y = True"

definition js_gt :: "jsnum \<Rightarrow> jsnum \<Rightarrow> bool" where
  "js_gt x y = js_lt y x"

definition js_ge :: "jsnum \<Rightarrow> jsnum \<Rightarrow> bool" where
  "js_ge x y = js_le y x"

text \<open>
  An untyped value (\<^verbatim>\<open>unknown\<close>, \<^verbatim>\<open>any\<close>): the values that JSON decoding
  delivers, and \<^verbatim>\<open>undefined\<close>. An object is the list of its own properties, one
  entry per key. JSON text denotes finite numbers and, by overflow (\<^verbatim>\<open>1e999\<close>), the
  infinities, but never NaN; a value of type \<^verbatim>\<open>unknown\<close> may hold it all the same.
\<close>

datatype jsval =
    JUndefined
  | JNull
  | JBool bool
  | JNum jsnum
  | JStr string
  | JArr "jsval list"
  | JObj "(string \<times> jsval) list"

text \<open>Reading an array element: past the end the result is \<^verbatim>\<open>undefined\<close>.\<close>

definition elem :: "jsval list \<Rightarrow> nat \<Rightarrow> jsval" where
  "elem xs i = (if i < length xs then xs ! i else JUndefined)"

text \<open>Reading a property of any value, as \<^verbatim>\<open>v?.k\<close> does.\<close>

fun property :: "jsval \<Rightarrow> string \<Rightarrow> jsval" where
  "property (JObj fs) k = (case map_of fs k of Some v \<Rightarrow> v | None \<Rightarrow> JUndefined)"
| "property v k = JUndefined"

section \<open>The row validator\<close>

text \<open>\<^verbatim>\<open>type Point = { lat: number; lon: number; alt_km: number | null }\<close>\<close>

record Point =
  lat :: jsnum
  lon :: jsnum
  alt_km :: "jsnum option"

text \<open>
  \<^verbatim>\<open>
  function parseRow(row: unknown): Point | null {
    if (!Array.isArray(row) || row.length < 2) return null;
    const [lat, lon, alt] = row as [unknown, unknown, unknown];
    if (typeof lat !== "number" || typeof lon !== "number") return null;
    if (lat < -90 || lat > 90 || lon < -180 || lon > 180) return null;
    const alt_km = typeof alt === "number" && alt >= 0 && alt <= 40 ? alt : null;
    return { lat, lon, alt_km };
  }
  \<close>
  The result \<^verbatim>\<open>null\<close> is \<open>None\<close>.
\<close>

definition altitude :: "jsval \<Rightarrow> jsnum option" where
  "altitude alt =
     (case alt of
        JNum a \<Rightarrow> if js_ge a (Finite 0) \<and> js_le a (Finite 40) then Some a else None
      | _ \<Rightarrow> None)"

definition parseRow :: "jsval \<Rightarrow> Point option" where
  "parseRow row =
     (case row of
        JArr xs \<Rightarrow>
          if length xs < 2 then None
          else
            (case (elem xs 0, elem xs 1) of
               (JNum la, JNum lo) \<Rightarrow>
                 if js_lt la (Finite (- 90)) \<or> js_gt la (Finite 90)
                    \<or> js_lt lo (Finite (- 180)) \<or> js_gt lo (Finite 180)
                 then None
                 else Some \<lparr>lat = la, lon = lo, alt_km = altitude (elem xs 2)\<rparr>
             | _ \<Rightarrow> None)
      | _ \<Rightarrow> None)"

text \<open>The value a returned Point is, as an untyped value: the object literal of the last line.\<close>

definition Point_value :: "Point \<Rightarrow> jsval" where
  "Point_value p =
     JObj [(''lat'', JNum (lat p)), (''lon'', JNum (lon p)),
           (''alt_km'', case alt_km p of None \<Rightarrow> JNull | Some a \<Rightarrow> JNum a)]"

text \<open>The same Point written back as a raw record \<^verbatim>\<open>[lat, lon, alt_km]\<close>.\<close>

definition Point_row :: "Point \<Rightarrow> jsval" where
  "Point_row p =
     JArr [JNum (lat p), JNum (lon p), case alt_km p of None \<Rightarrow> JNull | Some a \<Rightarrow> JNum a]"

subsection \<open>The words of the specification\<close>

text \<open>A number is in the closed interval from \<open>lo\<close> to \<open>hi\<close>.\<close>

definition in_range :: "real \<Rightarrow> real \<Rightarrow> jsnum \<Rightarrow> bool" where
  "in_range lo hi x = (js_le (Finite lo) x \<and> js_le x (Finite hi))"

text \<open>
  A number lies beyond the bounds of the interval when it is below \<open>lo\<close> or above
  \<open>hi\<close>: the two comparisons of the code's guard. Both infinities lie beyond the
  bounds of every interval. NaN is unordered: it is not in any interval and not beyond
  any bound.
\<close>

definition beyond :: "real \<Rightarrow> real \<Rightarrow> jsnum \<Rightarrow> bool" where
  "beyond lo hi x = (js_lt x (Finite lo) \<or> js_lt (Finite hi) x)"

definition is_number :: "jsval \<Rightarrow> bool" where
  "is_number v = (case v of JNum x \<Rightarrow> True | _ \<Rightarrow> False)"

definition the_number :: "jsval \<Rightarrow> jsnum" where
  "the_number v = (case v of JNum x \<Rightarrow> x | _ \<Rightarrow> NaN)"

text \<open>The range constraints of a Point.\<close>

definition valid_Point :: "Point \<Rightarrow> bool" where
  "valid_Point p =
     (in_range (- 90) 90 (lat p) \<and> in_range (- 180) 180 (lon p)
      \<and> (case alt_km p of None \<Rightarrow> True | Some a \<Rightarrow> in_range 0 40 a))"

text \<open>
  The raw records the specification rejects: not an array, shorter than two elements,
  a first or second element that is not a number, a latitude that is not in [-90,90] or
  a longitude that is not in [-180,180].
\<close>

definition rejected_row :: "jsval \<Rightarrow> bool" where
  "rejected_row row =
     (case row of
        JArr xs \<Rightarrow>
          length xs < 2
          \<or> \<not> (is_number (elem xs 0) \<and> is_number (elem xs 1))
          \<or> \<not> in_range (- 90) 90 (the_number (elem xs 0))
          \<or> \<not> in_range (- 180) 180 (the_number (elem xs 1))
      | _ \<Rightarrow> True)"

text \<open>
  The same with an ordered reading of the two ranges: a latitude below -90 or above 90,
  a longitude below -180 or above 180.
\<close>

definition out_of_bounds_row :: "jsval \<Rightarrow> bool" where
  "out_of_bounds_row row =
     (case row of
        JArr xs \<Rightarrow>
          length xs < 2
          \<or> \<not> (is_number (elem xs 0) \<and> is_number (elem xs 1))
          \<or> beyond (- 90) 90 (the_number (elem xs 0))
          \<or> beyond (- 180) 180 (the_number (elem xs 1))
      | _ \<Rightarrow> True)"

text \<open>A raw record whose latitude or longitude is NaN.\<close>

definition NaN_coordinate :: "jsval \<Rightarrow> bool" where
  "NaN_coordinate row =
     (case row of
        JArr xs \<Rightarrow> elem xs 0 = JNum NaN \<or> elem xs 1 = JNum NaN
      | _ \<Rightarrow> False)"

text \<open>
  The row validator as the specification words it: an array of at least two elements
  whose first two are numbers, the latitude in [-90,90] and the longitude in [-180,180],
  yields the Point of these two values; the third element is its altitude when it is a
  number in [0,40] and the altitude is absent otherwise. Every other record is rejected.
\<close>

definition Row_Validator :: "jsval \<Rightarrow> Point option" where
  "Row_Validator row =
     (case row of
        JArr (JNum la # JNum lo # rest) \<Rightarrow>
          if in_range (- 90) 90 la \<and> in_range (- 180) 180 lo
          then Some \<lparr>lat = la, lon = lo,
                     alt_km = (case rest of
                                 JNum a # others \<Rightarrow> if in_range 0 40 a then Some a else None
                               | _ \<Rightarrow> None)\<rparr>
          else None
      | _ \<Rightarrow> None)"

section \<open>The snapshot fetcher\<close>

text \<open>
  What the code reads of a Fetch API response: \<^verbatim>\<open>res.ok\<close>, \<^verbatim>\<open>res.status\<close>,
  \<^verbatim>\<open>res.headers.get("content-type")\<close> (\<open>None\<close> when the header is absent),
  \<^verbatim>\<open>res.arrayBuffer()\<close> and \<^verbatim>\<open>res.json()\<close>. The last rejects when the body is not
  JSON text: \<open>json = None\<close>. Decoding itself belongs to the platform and is not modelled.
\<close>

record response =
  ok :: bool
  status :: nat
  content_type :: "string option"
  body :: string
  json :: "jsval option"

text \<open>
  The network is a function from the address to the response, \<open>None\<close> when
  \<^verbatim>\<open>fetch\<close> itself rejects. The request options (\<^verbatim>\<open>cache: "no-store"\<close>, the
  user agent) travel with the request and enter nothing the code reads back.
\<close>

type_synonym network = "string \<Rightarrow> response option"

datatype fetch_error = NetworkError | HttpError string nat | DecodeError

definition WB_BASE :: string where
  "WB_BASE = ''/api/wb/treasure/''"

text \<open>
  \<^verbatim>\<open>
  const rows = Array.isArray(data) ? data
    : Array.isArray((data as any)?.points) ? (data as any).points : [];
  \<close>
\<close>

definition rows_of :: "jsval \<Rightarrow> jsval list" where
  "rows_of data =
     (case data of
        JArr rows \<Rightarrow> rows
      | _ \<Rightarrow> (case property data ''points'' of JArr rows \<Rightarrow> rows | _ \<Rightarrow> []))"

text \<open>
  \<^verbatim>\<open>
  async function fetchHour(hh: string): Promise<Point[]> {
    const url = `${WB_BASE}${hh}.json`;
    const res = await fetch(url, { cache: "no-store" });
    if (!res.ok) throw new Error(`WB ${hh}.json HTTP ${res.status}`);
    const data = await res.json();
    const rows: unknown[] = ...;
    return rows.map(parseRow).filter(Boolean) as Point[];
  }
  \<close>
  A rejected promise is \<open>Inl\<close>. A Point is an object and so truthy, \<^verbatim>\<open>null\<close> is falsy:
  \<^verbatim>\<open>filter(Boolean)\<close> keeps exactly the rows that were accepted.
\<close>

definition fetchHour :: "network \<Rightarrow> string \<Rightarrow> fetch_error + Point list" where
  "fetchHour fetch hh =
     (case fetch (WB_BASE @ hh @ ''.json'') of
        None \<Rightarrow> Inl NetworkError
      | Some res \<Rightarrow>
          if \<not> ok res then Inl (HttpError hh (status res))
          else
            (case json res of
               None \<Rightarrow> Inl DecodeError
             | Some data \<Rightarrow>
                 Inr (map the (filter (\<lambda>r. r \<noteq> None) (map parseRow (rows_of data))))))"

text \<open>
  The words of the specification: every raw record goes through the row validator and
  the rejections are discarded; the two shapes of a snapshot body.
\<close>

definition validated :: "jsval list \<Rightarrow> Point list" where
  "validated rows = List.map_filter parseRow rows"

definition snapshot_rows :: "jsval \<Rightarrow> jsval list" where
  "snapshot_rows data =
     (case data of
        JArr rows \<Rightarrow> rows
      | JObj fs \<Rightarrow> (case map_of fs ''points'' of Some (JArr rows) \<Rightarrow> rows | _ \<Rightarrow> [])
      | _ \<Rightarrow> [])"

section \<open>The hour labels\<close>

text \<open>
  \<^verbatim>\<open>const HOURS = Array.from({ length: 24 }, (_, i) => i.toString().padStart(2, "0"));\<close>
\<close>

definition digit :: "nat \<Rightarrow> char" where
  "digit d = ''0123456789'' ! d"

fun toString :: "nat \<Rightarrow> string" where
  "toString n = (if n < 10 then [digit n] else toString (n div 10) @ [digit (n mod 10)])"

definition padStart :: "nat \<Rightarrow> char \<Rightarrow> string \<Rightarrow> string" where
  "padStart n c s = replicate (n - length s) c @ s"

definition HOURS :: "string list" where
  "HOURS = map (\<lambda>i. padStart 2 (CHR ''0'') (toString i)) [0..<24]"

section \<open>The ingestion orchestrator, progressive variant\<close>

text \<open>
  The four React state cells of \<^verbatim>\<open>useWindborne\<close>, the two variables of the effect's
  closure (\<^verbatim>\<open>cancelled\<close>, \<^verbatim>\<open>completed\<close>), and a counter of the calls of a state
  setter. An entry of \<open>byHour\<close> is \<open>Some\<close> list of Points, or \<open>None\<close> for a hole of
  the JavaScript array (an index that reads as \<^verbatim>\<open>undefined\<close>). \<^verbatim>\<open>progress\<close> is the
  quotient \<^verbatim>\<open>completed / HOURS.length\<close>, taken exactly.
\<close>

record hook_state =
  loading :: bool
  error :: string
  byHour :: "Point list option list"
  progress :: real
  cancelled :: bool
  completed :: nat
  setCalls :: nat

text \<open>
  \<^verbatim>\<open>next[idx] = points\<close> on a copy of the array: an index past the end extends the
  array and leaves holes in between.
\<close>

definition assign :: "'a option list \<Rightarrow> nat \<Rightarrow> 'a \<Rightarrow> 'a option list" where
  "assign xs i v =
     (if i < length xs then xs[i := Some v]
      else xs @ replicate (i - length xs) None @ [Some v])"

text \<open>The initial values given to \<^verbatim>\<open>useState\<close>: the state of the first render.\<close>

definition useState_init :: hook_state where
  "useState_init =
     \<lparr>loading = True, error = '''', byHour = replicate (length HOURS) (Some []),
      progress = 0, cancelled = False, completed = 0, setCalls = 0\<rparr>"

text \<open>
  The synchronous part of the effect, a cycle's start:
  \<^verbatim>\<open>
  let cancelled = false; let completed = 0;
  setLoading(true); setError("");
  setByHour(Array.from({ length: HOURS.length }, () => []));
  setProgress(0);
  \<close>
\<close>

definition effect :: "hook_state \<Rightarrow> hook_state" where
  "effect s =
     s\<lparr>cancelled := False, completed := 0, loading := True, error := '''',
       byHour := replicate (length HOURS) (Some []), progress := 0,
       setCalls := setCalls s + 4\<rparr>"

text \<open>
  What can happen after the start. For the hour at index \<open>idx\<close> the chain
  \<^verbatim>\<open>fetchHour(hh).then(A).catch(B).finally(C)\<close> runs \<open>A\<close> then \<open>C\<close> when the fetch
  fulfils and \<open>B\<close> then \<open>C\<close> when it rejects, each callback in a turn of its own, so
  callbacks of different hours interleave. \<open>Cleanup\<close> is the function the effect returns.
  \<^verbatim>\<open>
  A = (points) => { if (cancelled) return;
                    setByHour((prev) => { const next = prev.slice(); next[idx] = points; return next; }); }
  B = (e) => { console.warn("skip hour", hh, e); }
  C = () => { if (cancelled) return;
              completed += 1; setProgress(completed / HOURS.length);
              if (completed === HOURS.length) setLoading(false); }
  \<close>
  The console is no state of the hook and is left out.
\<close>

datatype event = OnThen nat "Point list" | OnCatch nat | OnFinally nat | Cleanup

fun step :: "event \<Rightarrow> hook_state \<Rightarrow> hook_state" where
  "step (OnThen idx points) s =
     (if cancelled s then s
      else s\<lparr>byHour := assign (byHour s) idx points, setCalls := setCalls s + 1\<rparr>)"
| "step (OnCatch idx) s = s"
| "step (OnFinally idx) s =
     (if cancelled s then s
      else
        let c = completed s + 1;
            s1 = s\<lparr>completed := c, progress := real c / real (length HOURS),
                   setCalls := setCalls s + 1\<rparr>
        in if c = length HOURS then s1\<lparr>loading := False, setCalls := setCalls s1 + 1\<rparr>
           else s1)"
| "step Cleanup s = s\<lparr>cancelled := True\<rparr>"

fun run :: "event list \<Rightarrow> hook_state \<Rightarrow> hook_state" where
  "run [] s = s"
| "run (e # evs) s = run evs (step e s)"

text \<open>The hour an event belongs to, and the kinds of events.\<close>

fun slot :: "event \<Rightarrow> nat" where
  "slot (OnThen idx points) = idx"
| "slot (OnCatch idx) = idx"
| "slot (OnFinally idx) = idx"
| "slot Cleanup = 0"

fun is_then :: "nat \<Rightarrow> event \<Rightarrow> bool" where
  "is_then i (OnThen idx points) = (idx = i)"
| "is_then i e = False"

fun is_finally :: "nat \<Rightarrow> event \<Rightarrow> bool" where
  "is_finally i (OnFinally idx) = (idx = i)"
| "is_finally i e = False"

text \<open>
  The events the code can produce come from \<^verbatim>\<open>HOURS.forEach((hh, idx) => ...)\<close>: their
  index is an index of \<open>HOURS\<close>.
\<close>

definition events_ok :: "event list \<Rightarrow> bool" where
  "events_ok evs = list_all (\<lambda>e. slot e < length HOURS) evs"

text \<open>
  A full cycle without teardown, for the settlements \<open>outcome hh\<close> of the 24 calls
  \<^verbatim>\<open>fetchHour(hh)\<close>: every hour's \<^verbatim>\<open>finally\<close> callback runs once, the \<^verbatim>\<open>then\<close>
  callback runs once with the fetched points for an hour that fulfils and not at all for
  one that rejects. Nothing is asked of the order of the events.
\<close>

definition full_cycle :: "(string \<Rightarrow> fetch_error + Point list) \<Rightarrow> event list \<Rightarrow> bool" where
  "full_cycle outcome evs =
     (events_ok evs \<and> Cleanup \<notin> set evs
      \<and> list_all
          (\<lambda>i. filter (is_finally i) evs = [OnFinally i]
               \<and> filter (is_then i) evs =
                   (case outcome (HOURS ! i) of
                      Inr points \<Rightarrow> [OnThen i points]
                    | Inl e \<Rightarrow> []))
          [0..<length HOURS])"

text \<open>
  The callbacks of one hour in the order of its promise chain, and the schedule in which
  the hours settle one after the other.
\<close>

definition callbacks :: "(string \<Rightarrow> fetch_error + Point list) \<Rightarrow> nat \<Rightarrow> event list" where
  "callbacks outcome idx =
     (case outcome (HOURS ! idx) of
        Inr points \<Rightarrow> [OnThen idx points, OnFinally idx]
      | Inl e \<Rightarrow> [OnCatch idx, OnFinally idx])"

definition in_order :: "(string \<Rightarrow> fetch_error + Point list) \<Rightarrow> event list" where
  "in_order outcome = concat (map (callbacks outcome) [0..<length HOURS])"

text \<open>The final array the specification describes: the points of an hour, or no points.\<close>

definition slot_result :: "fetch_error + Point list \<Rightarrow> Point list" where
  "slot_result r = (case r of Inr points \<Rightarrow> points | Inl e \<Rightarrow> [])"

text \<open>Whether an event is a \<^verbatim>\<open>finally\<close> callback, of any hour.\<close>

fun any_finally :: "event \<Rightarrow> bool" where
  "any_finally (OnFinally idx) = True"
| "any_finally e = False"

text \<open>
  The shape the specification asks of \<open>byHour\<close>: exactly 24 entries, each a list of
  Points, none a hole.
\<close>

definition well_formed :: "Point list option list \<Rightarrow> bool" where
  "well_formed b = (length b = 24 \<and> list_all (\<lambda>entry. entry \<noteq> None) b)"

text \<open>
  Events whose \<^verbatim>\<open>then\<close> callbacks carry what \<open>fetchHour\<close> returned for their hour
  over a network, and a property of all the Points stored in \<open>byHour\<close>.
\<close>

definition fetched_events :: "network \<Rightarrow> event list \<Rightarrow> bool" where
  "fetched_events fetch evs =
     list_all
       (\<lambda>e. case e of
               OnThen idx points \<Rightarrow> idx < length HOURS \<and> fetchHour fetch (HOURS ! idx) = Inr points
             | _ \<Rightarrow> True)
       evs"

definition stored :: "(Point \<Rightarrow> bool) \<Rightarrow> Point list option list \<Rightarrow> bool" where
  "stored P b = list_all (\<lambda>entry. case entry of None \<Rightarrow> True | Some ps \<Rightarrow> list_all P ps) b"

text \<open>
  Every entry of \<open>byHour\<close> is the empty list or what \<open>fetchHour\<close> returned for the
  hour of its index.
\<close>

definition slots_fetched :: "network \<Rightarrow> Point list option list \<Rightarrow> bool" where
  "slots_fetched fetch b =
     (length b = length HOURS
      \<and> list_all
          (\<lambda>i. case b ! i of
                  None \<Rightarrow> False
                | Some qs \<Rightarrow> qs = [] \<or> fetchHour fetch (HOURS ! i) = Inr qs)
          [0..<length HOURS])"

section \<open>The ingestion orchestrator, Promise.all variant\<close>

text \<open>
  The repository's other \<^verbatim>\<open>useWindborne\<close>: three state cells (no progress), \<^verbatim>\<open>byHour\<close> starts as
  the empty array and is set once, when all 24 hours have settled.
  \<^verbatim>\<open>
  const [byHour, setByHour] = useState<Point[][]>([]);
  useEffect(() => {
    let cancelled = false;
    (async () => {
      try {
        setLoading(true); setError("");
        const all = await Promise.all(HOURS.map(async (hh) => {
          try { return await fetchHour(hh); }
          catch (e) { console.warn("skip hour", hh, e); return [] as Point[]; } }));
        if (!cancelled) setByHour(all);
      } catch (e) { if (!cancelled) setError(String(e)); }
      finally { if (!cancelled) setLoading(false); }
    })();
    return () => { cancelled = true; };
  }, []);
  \<close>
  Each inner function catches its own failure, so \<^verbatim>\<open>Promise.all\<close> never rejects and the
  outer \<^verbatim>\<open>catch\<close> has nothing to catch.
\<close>

record hook_state_all =
  loading_all :: bool
  error_all :: string
  byHour_all :: "Point list option list"
  cancelled_all :: bool

definition useState_init_all :: hook_state_all where
  "useState_init_all =
     \<lparr>loading_all = True, error_all = '''', byHour_all = [], cancelled_all = False\<rparr>"

definition effect_all :: "hook_state_all \<Rightarrow> hook_state_all" where
  "effect_all s = s\<lparr>cancelled_all := False, loading_all := True, error_all := ''''\<rparr>"

definition hour_task :: "(string \<Rightarrow> fetch_error + Point list) \<Rightarrow> string \<Rightarrow> Point list" where
  "hour_task outcome hh = (case outcome hh of Inr points \<Rightarrow> points | Inl e \<Rightarrow> [])"

text \<open>The continuation after \<^verbatim>\<open>await Promise.all(...)\<close>, and the cleanup.\<close>

definition all_settled ::
  "(string \<Rightarrow> fetch_error + Point list) \<Rightarrow> hook_state_all \<Rightarrow> hook_state_all" where
  "all_settled outcome s =
     (let all = map (hour_task outcome) HOURS;
          s1 = (if \<not> cancelled_all s then s\<lparr>byHour_all := map Some all\<rparr> else s)
      in if \<not> cancelled_all s1 then s1\<lparr>loading_all := False\<rparr> else s1)"

definition cleanup_all :: "hook_state_all \<Rightarrow> hook_state_all" where
  "cleanup_all s = s\<lparr>cancelled_all := True\<rparr>"

section \<open>The caching proxy\<close>

datatype query_value = QUndefined | QString string | QArray "string list"

record VercelRequest =
  req_method :: string
  query :: "string \<Rightarrow> query_value"

record VercelResponse =
  statusCode :: nat
  headers :: "string \<rightharpoonup> string"
  payload :: string
  ended :: bool

datatype proxy_error = UpstreamUnreachable

definition setHeader :: "string \<Rightarrow> string \<Rightarrow> VercelResponse \<Rightarrow> VercelResponse" where
  "setHeader k v res = res\<lparr>headers := (headers res)(k \<mapsto> v)\<rparr>"

definition set_status :: "nat \<Rightarrow> VercelResponse \<Rightarrow> VercelResponse" where
  "set_status c res = res\<lparr>statusCode := c\<rparr>"

definition send :: "string \<Rightarrow> VercelResponse \<Rightarrow> VercelResponse" where
  "send b res = res\<lparr>payload := b, ended := True\<rparr>"

definition end_response :: "VercelResponse \<Rightarrow> VercelResponse" where
  "end_response res = res\<lparr>ended := True\<rparr>"

fun join :: "string \<Rightarrow> string list \<Rightarrow> string" where
  "join sep [] = []"
| "join sep [x] = x"
| "join sep (x # y # ys) = x @ sep @ join sep (y # ys)"

definition cc :: string where
  "cc = ''max-age=0, s-maxage=60, stale-while-revalidate=300''"

text \<open>
  The path-based variant.
  \<^verbatim>\<open>
  export default async function handler(req, res) {
    if (req.method === "OPTIONS") {
      res.setHeader("Access-Control-Allow-Origin", "*");
      res.setHeader("Access-Control-Allow-Methods", "GET, OPTIONS");
      res.setHeader("Access-Control-Allow-Headers", "Content-Type");
      res.status(204).end();
      return;
    }
    const seg = Array.isArray(req.query.path) ? req.query.path.join("/") : (req.query.path || "");
    const target = `https://a.windbornesystems.com/${seg}`;
    const upstream = await fetch(target, { headers: { "user-agent": "balloons-proxy/1.0" } });
    res.status(upstream.status);
    res.setHeader("Content-Type", upstream.headers.get("content-type") ?? "application/json");
    res.setHeader("Access-Control-Allow-Origin", "*");
    const cc = "max-age=0, s-maxage=60, stale-while-revalidate=300";
    res.setHeader("Cache-Control", cc);
    res.setHeader("CDN-Cache-Control", cc);
    const body = await upstream.arrayBuffer();
    res.send(Buffer.from(body));
  }
  \<close>
  The handler takes the response object as it is handed in and returns it as it is left.
\<close>

definition handler_path ::
  "network \<Rightarrow> VercelRequest \<Rightarrow> VercelResponse \<Rightarrow> proxy_error + VercelResponse" where
  "handler_path fetch req res =
     (if req_method req = ''OPTIONS'' then
        Inr (end_response (set_status 204
          (setHeader ''Access-Control-Allow-Headers'' ''Content-Type''
          (setHeader ''Access-Control-Allow-Methods'' ''GET, OPTIONS''
          (setHeader ''Access-Control-Allow-Origin'' ''*'' res)))))
      else
        let seg = (case query req ''path'' of
                     QArray xs \<Rightarrow> join ''/'' xs
                   | QString s \<Rightarrow> s
                   | QUndefined \<Rightarrow> '''');
            target = ''https://a.windbornesystems.com/'' @ seg
        in case fetch target of
             None \<Rightarrow> Inl UpstreamUnreachable
           | Some upstream \<Rightarrow>
               Inr (send (body upstream)
                 (setHeader ''CDN-Cache-Control'' cc
                 (setHeader ''Cache-Control'' cc
                 (setHeader ''Access-Control-Allow-Origin'' ''*''
                 (setHeader ''Content-Type''
                    (case content_type upstream of Some t \<Rightarrow> t | None \<Rightarrow> ''application/json'')
                 (set_status (status upstream) res)))))))"

text \<open>
  The query-based variant.
  \<^verbatim>\<open>
  export default async function handler(req, res) {
    const file = String(req.query.file || "");
    const target = `https://a.windbornesystems.com/treasure/${encodeURIComponent(file)}`;
    const r = await fetch(target);
    const buf = await r.arrayBuffer();
    res.status(r.status);
    res.setHeader("Content-Type", r.headers.get("content-type") ?? "application/json");
    res.setHeader("Access-Control-Allow-Origin", "*");
    res.setHeader("Cache-Control", "max-age=0, s-maxage=60, stale-while-revalidate=300");
    res.setHeader("CDN-Cache-Control", "max-age=0, s-maxage=60, stale-while-revalidate=300");
    res.send(Buffer.from(buf));
  }
  \<close>
  \<^verbatim>\<open>String\<close> of an array joins its elements with a comma. The platform's
  \<^verbatim>\<open>encodeURIComponent\<close> is a parameter.
\<close>

definition handler_file ::
  "(string \<Rightarrow> string) \<Rightarrow> network \<Rightarrow> VercelRequest \<Rightarrow> VercelResponse
     \<Rightarrow> proxy_error + VercelResponse" where
  "handler_file encodeURIComponent fetch req res =
     (let file = (case query req ''file'' of
                    QArray xs \<Rightarrow> join '','' xs
                  | QString s \<Rightarrow> s
                  | QUndefined \<Rightarrow> '''');
          target = ''https://a.windbornesystems.com/treasure/'' @ encodeURIComponent file
      in case fetch target of
           None \<Rightarrow> Inl UpstreamUnreachable
         | Some r \<Rightarrow>
             Inr (send (body r)
               (setHeader ''CDN-Cache-Control''
                  ''max-age=0, s-maxage=60, stale-while-revalidate=300''
               (setHeader ''Cache-Control''
                  ''max-age=0, s-maxage=60, stale-while-revalidate=300''
               (setHeader ''Access-Control-Allow-Origin'' ''*''
               (setHeader ''Content-Type''
                  (case content_type r of Some t \<Rightarrow> t | None \<Rightarrow> ''application/json'')
               (set_status (status r) res)))))))"

text \<open>The header policy of the specification, read off a finished response.\<close>

definition relays :: "response \<Rightarrow> VercelResponse \<Rightarrow> bool" where
  "relays upstream res =
     (statusCode res = status upstream
      \<and> headers res ''Content-Type'' =
          Some (case content_type upstream of Some t \<Rightarrow> t | None \<Rightarrow> ''application/json'')
      \<and> headers res ''Access-Control-Allow-Origin'' = Some ''*''
      \<and> headers res ''Cache-Control'' =
          Some ''max-age=0, s-maxage=60, stale-while-revalidate=300''
      \<and> headers res ''CDN-Cache-Control'' =
          Some ''max-age=0, s-maxage=60, stale-while-revalidate=300'')"

text \<open>
  The response object after a relay: status, the four headers, body and end, everything
  else as it was.
\<close>

definition relayed :: "response \<Rightarrow> VercelResponse \<Rightarrow> VercelResponse" where
  "relayed upstream res =
     res\<lparr>statusCode := status upstream,
         headers := (headers res)
           (''Content-Type'' \<mapsto>
              (case content_type upstream of Some t \<Rightarrow> t | None \<Rightarrow> ''application/json''),
            ''Access-Control-Allow-Origin'' \<mapsto> ''*'',
            ''Cache-Control'' \<mapsto> ''max-age=0, s-maxage=60, stale-while-revalidate=300'',
            ''CDN-Cache-Control'' \<mapsto> ''max-age=0, s-maxage=60, stale-while-revalidate=300''),
         payload := body upstream, ended := True\<rparr>"

text \<open>The address each variant forwards to, as the handlers compute it.\<close>

definition path_target :: "VercelRequest \<Rightarrow> string" where
  "path_target req =
     ''https://a.windbornesystems.com/''
       @ (case query req ''path'' of
            QArray xs \<Rightarrow> join ''/'' xs
          | QString s \<Rightarrow> s
          | QUndefined \<Rightarrow> '''')"

definition file_target :: "(string \<Rightarrow> string) \<Rightarrow> VercelRequest \<Rightarrow> string" where
  "file_target encodeURIComponent req =
     ''https://a.windbornesystems.com/treasure/''
       @ encodeURIComponent
           (case query req ''file'' of
              QArray xs \<Rightarrow> join '','' xs
            | QString s \<Rightarrow> s
            | QUndefined \<Rightarrow> '''')"

section \<open>Facts about the comparisons\<close>

lemma in_range_Finite [simp]: "in_range lo hi (Finite x) = (lo \<le> x \<and> x \<le> hi)"
  by (simp add: in_range_def)

lemma in_range_nonfinite [simp]:
  "\<not> in_range lo hi NaN" "\<not> in_range lo hi PInf" "\<not> in_range lo hi NInf"
  by (simp_all add: in_range_def)

lemma beyond_Finite [simp]: "beyond lo hi (Finite x) = (x < lo \<or> hi < x)"
  by (simp add: beyond_def)

lemma beyond_nonfinite [simp]:
  "\<not> beyond lo hi NaN" "beyond lo hi PInf" "beyond lo hi NInf"
  by (simp_all add: beyond_def)

lemma not_beyond_iff: "\<not> beyond lo hi x \<longleftrightarrow> x = NaN \<or> in_range lo hi x"
  by (cases x) auto

lemma beyond_iff: "beyond lo hi x \<longleftrightarrow> x \<noteq> NaN \<and> \<not> in_range lo hi x"
  by (cases x) auto

lemma altitude_cases:
  "altitude v = (case v of JNum a \<Rightarrow> if in_range 0 40 a then Some a else None | _ \<Rightarrow> None)"
  by (simp add: altitude_def in_range_def js_ge_def split: jsval.splits)

lemma altitude_Some: "altitude v = Some a \<Longrightarrow> v = JNum a \<and> in_range 0 40 a"
  by (auto simp: altitude_cases split: jsval.splits if_splits)

lemma parseRow_array:
  "parseRow (JArr xs) =
     (if length xs < 2 then None
      else case (elem xs 0, elem xs 1) of
             (JNum la, JNum lo) \<Rightarrow>
               if beyond (- 90) 90 la \<or> beyond (- 180) 180 lo then None
               else Some \<lparr>lat = la, lon = lo, alt_km = altitude (elem xs 2)\<rparr>
           | _ \<Rightarrow> None)"
  by (auto simp: parseRow_def beyond_def js_gt_def split: jsval.splits)

lemma parseRow_not_array: "(\<And>xs. row \<noteq> JArr xs) \<Longrightarrow> parseRow row = None"
  by (cases row) (auto simp: parseRow_def)

lemma parseRow_Some:
  assumes "parseRow row = Some p"
  obtains xs where "row = JArr xs" "2 \<le> length xs"
    "elem xs 0 = JNum (lat p)" "elem xs 1 = JNum (lon p)"
    "\<not> beyond (- 90) 90 (lat p)" "\<not> beyond (- 180) 180 (lon p)"
    "alt_km p = altitude (elem xs 2)"
proof (cases row)
  case (JArr xs)
  with assms have "parseRow (JArr xs) = Some p" by simp
  then have "2 \<le> length xs \<and> elem xs 0 = JNum (lat p) \<and> elem xs 1 = JNum (lon p)
      \<and> \<not> beyond (- 90) 90 (lat p) \<and> \<not> beyond (- 180) 180 (lon p)
      \<and> alt_km p = altitude (elem xs 2)"
    by (auto simp: parseRow_array split: if_splits jsval.splits)
  with JArr that show ?thesis by blast
qed (use assms in \<open>simp_all add: parseRow_def\<close>)

section \<open>Facts about the snapshot fetcher\<close>

lemma fetch_filter: "map the (filter (\<lambda>r. r \<noteq> None) (map f xs)) = List.map_filter f xs"
  by (induction xs) (auto simp: List.map_filter_simps split: option.splits)

lemma rows_of_snapshot_rows: "rows_of data = snapshot_rows data"
  by (cases data) (auto simp: rows_of_def snapshot_rows_def split: option.splits jsval.splits)

lemma fetchHour_eq:
  "fetchHour fetch hh =
     (case fetch (WB_BASE @ hh @ ''.json'') of
        None \<Rightarrow> Inl NetworkError
      | Some res \<Rightarrow>
          if \<not> ok res then Inl (HttpError hh (status res))
          else (case json res of
                  None \<Rightarrow> Inl DecodeError
                | Some data \<Rightarrow> Inr (validated (snapshot_rows data))))"
  unfolding fetchHour_def fetch_filter rows_of_snapshot_rows validated_def
  by (rule refl)

lemma validated_valid:
  assumes "p \<in> set (validated rows)"
  shows "\<exists>row \<in> set rows. parseRow row = Some p"
  using assms by (auto simp: validated_def List.map_filter_def)

lemma parseRow_ranges:
  assumes "parseRow row = Some p"
  shows "(lat p = NaN \<or> in_range (- 90) 90 (lat p))"
    and "(lon p = NaN \<or> in_range (- 180) 180 (lon p))"
    and "(case alt_km p of None \<Rightarrow> True | Some a \<Rightarrow> in_range 0 40 a)"
proof -
  from assms obtain xs where *: "\<not> beyond (- 90) 90 (lat p)" "\<not> beyond (- 180) 180 (lon p)"
    "alt_km p = altitude (elem xs 2)"
    by (rule parseRow_Some)
  from *(1) show "lat p = NaN \<or> in_range (- 90) 90 (lat p)" by (simp add: not_beyond_iff)
  from *(2) show "lon p = NaN \<or> in_range (- 180) 180 (lon p)" by (simp add: not_beyond_iff)
  show "case alt_km p of None \<Rightarrow> True | Some a \<Rightarrow> in_range 0 40 a"
  proof (cases "alt_km p")
    case None
    then show ?thesis by simp
  next
    case (Some a)
    with *(3) have "altitude (elem xs 2) = Some a" by simp
    from altitude_Some [OF this] Some show ?thesis by simp
  qed
qed

lemma fetchHour_Inr:
  assumes "fetchHour fetch hh = Inr ps"
  obtains res data where "fetch (WB_BASE @ hh @ ''.json'') = Some res" "ok res"
    "json res = Some data" "ps = validated (snapshot_rows data)"
  using assms
  by (auto simp: fetchHour_eq split: option.splits if_splits)

section \<open>The row validator: claims\<close>

text \<open>
  Claim C1, as stated: a raw record that is not an array, or is shorter than two
  elements, or whose first two elements are not both numbers, or whose latitude lies
  outside [-90,90], or whose longitude lies outside [-180,180], is rejected. It fails for
  a coordinate that is NaN: NaN is a number that is not in the range, both comparisons of
  the guard \<^verbatim>\<open>lon < -180 || lon > 180\<close> are false for it, and the row yields a Point.
\<close>

theorem NaN_longitude_counterexample:
  "rejected_row (JArr [JNum (Finite 0), JNum NaN])
   \<and> parseRow (JArr [JNum (Finite 0), JNum NaN]) =
       Some \<lparr>lat = Finite 0, lon = NaN, alt_km = None\<rparr>"
  by (simp add: rejected_row_def parseRow_array elem_def altitude_cases is_number_def
        the_number_def)

text \<open>
  Claim C1, amended. A raw record that is not an array, or is an array of fewer than two
  elements, or whose first two elements are not both numbers, or whose latitude is below
  -90 or above 90, or whose longitude is below -180 or above 180 (the infinities
  included), is rejected: \<open>parseRow\<close> returns \<^verbatim>\<open>null\<close> and no Point. So the claim holds
  as it is stated for every raw record whose latitude and longitude are not NaN.
\<close>

theorem parseRow_rejects:
  "(out_of_bounds_row row \<longrightarrow> parseRow row = None)
   \<and> (rejected_row row \<and> \<not> NaN_coordinate row \<longrightarrow> parseRow row = None)"
proof -
  have a: "parseRow row = None" if "out_of_bounds_row row"
  proof (cases row)
    case (JArr xs)
    with that show ?thesis
      by (auto simp: out_of_bounds_row_def parseRow_array is_number_def the_number_def
               split: jsval.splits)
  qed (simp_all add: parseRow_def)
  have "out_of_bounds_row row" if "rejected_row row" "\<not> NaN_coordinate row"
  proof (cases row)
    case (JArr xs)
    with that show ?thesis
      by (auto simp: out_of_bounds_row_def rejected_row_def NaN_coordinate_def
               beyond_iff is_number_def the_number_def split: jsval.splits)
  qed (simp_all add: out_of_bounds_row_def)
  with a show ?thesis by blast
qed

theorem parseRow_rejects_witness:
  "out_of_bounds_row (JArr [JNum (Finite 200), JNum (Finite 0)])
   \<and> parseRow (JArr [JNum (Finite 200), JNum (Finite 0)]) = None
   \<and> rejected_row (JArr [JNum (Finite 0), JNum PInf])
   \<and> \<not> NaN_coordinate (JArr [JNum (Finite 0), JNum PInf])
   \<and> parseRow (JArr [JNum (Finite 0), JNum PInf]) = None"
  using parseRow_rejects [of "JArr [JNum (Finite 200), JNum (Finite 0)]"]
    parseRow_rejects [of "JArr [JNum (Finite 0), JNum PInf]"]
  by (simp add: out_of_bounds_row_def rejected_row_def NaN_coordinate_def elem_def
        is_number_def the_number_def)

text \<open>
  Claim C2. A raw record whose first two elements are numbers within the latitude and
  longitude ranges always yields a Point. The third element becomes the altitude only
  when it is a number within [0,40]; when it is absent, not a number, or a number outside
  [0,40] (NaN and the infinities included), the Point's altitude is absent and the row is
  kept all the same.
\<close>

theorem parseRow_altitude_lenient:
  "in_range (- 90) 90 la \<Longrightarrow> in_range (- 180) 180 lo \<Longrightarrow>
   parseRow (JArr (JNum la # JNum lo # rest)) =
     Some \<lparr>lat = la, lon = lo,
           alt_km = (case rest of
                       JNum a # others \<Rightarrow> if in_range 0 40 a then Some a else None
                     | _ \<Rightarrow> None)\<rparr>"
  by (cases la; cases lo)
     (auto simp: parseRow_array elem_def altitude_cases split: list.splits jsval.splits)

theorem parseRow_altitude_lenient_witness:
  "in_range (- 90) 90 (Finite 45) \<and> in_range (- 180) 180 (Finite (- 122))
   \<and> parseRow (JArr [JNum (Finite 45), JNum (Finite (- 122)), JNum (Finite 99)]) =
       Some \<lparr>lat = Finite 45, lon = Finite (- 122), alt_km = None\<rparr>"
  using parseRow_altitude_lenient [of "Finite 45" "Finite (- 122)" "[JNum (Finite 99)]"]
  by simp

text \<open>
  Claim C6, as stated: running the row validator again on the Point value it produced
  yields the same Point. It fails: a Point is an object, not an array, and the first
  check of \<open>parseRow\<close> rejects it.
\<close>

theorem Point_value_counterexample:
  "parseRow (JArr [JNum (Finite 45), JNum (Finite (- 122)), JNum (Finite 5.2)]) =
     Some \<lparr>lat = Finite 45, lon = Finite (- 122), alt_km = Some (Finite 5.2)\<rparr>
   \<and> parseRow (Point_value \<lparr>lat = Finite 45, lon = Finite (- 122), alt_km = Some (Finite 5.2)\<rparr>)
       = None"
  by (simp add: parseRow_array Point_value_def elem_def altitude_cases parseRow_not_array)

text \<open>
  Claim C6, amended. For every raw record the row validator accepts, running it again
  on the accepted Point written back as a raw record \<^verbatim>\<open>[lat, lon, alt_km]\<close> yields
  the same Point.
\<close>

theorem parseRow_roundtrip:
  assumes "parseRow row = Some p"
  shows "parseRow (Point_row p) = Some p"
proof -
  from assms obtain xs where *: "\<not> beyond (- 90) 90 (lat p)" "\<not> beyond (- 180) 180 (lon p)"
    "alt_km p = altitude (elem xs 2)"
    by (rule parseRow_Some)
  have "altitude (case alt_km p of None \<Rightarrow> JNull | Some a \<Rightarrow> JNum a) = alt_km p"
  proof (cases "alt_km p")
    case None
    then show ?thesis by (simp add: altitude_def)
  next
    case (Some a)
    with *(3) have "altitude (elem xs 2) = Some a" by simp
    from altitude_Some [OF this] have "in_range 0 40 a" by simp
    with Some show ?thesis by (simp add: altitude_cases)
  qed
  with *(1,2) show ?thesis
    by (simp add: Point_row_def parseRow_array elem_def)
qed

theorem parseRow_roundtrip_witness:
  "parseRow (JArr [JNum (Finite 45), JNum (Finite (- 122)), JNum (Finite 99)]) =
     Some \<lparr>lat = Finite 45, lon = Finite (- 122), alt_km = None\<rparr>
   \<and> parseRow (Point_row \<lparr>lat = Finite 45, lon = Finite (- 122), alt_km = None\<rparr>) =
       Some \<lparr>lat = Finite 45, lon = Finite (- 122), alt_km = None\<rparr>"
  using parseRow_roundtrip
    [of "JArr [JNum (Finite 45), JNum (Finite (- 122)), JNum (Finite 99)]"
        "\<lparr>lat = Finite 45, lon = Finite (- 122), alt_km = None\<rparr>"]
  by (simp add: parseRow_array elem_def altitude_cases)

section \<open>The snapshot fetcher: claims\<close>

text \<open>
  Claim C8, as stated: for an HTTP-ok response the fetcher fails only on a non-success
  status. It fails for an HTTP-ok response whose body is not JSON text:
  \<^verbatim>\<open>await res.json()\<close> rejects and \<open>fetchHour\<close> rejects with it.
\<close>

theorem decode_failure_counterexample:
  "ok \<lparr>ok = True, status = 200, content_type = Some ''text/html'', body = ''<html>'',
       json = None\<rparr>
   \<and> fetchHour
       (\<lambda>url. Some \<lparr>ok = True, status = 200, content_type = Some ''text/html'',
                     body = ''<html>'', json = None\<rparr>) ''07'' = Inl DecodeError"
  by (simp add: fetchHour_def)

text \<open>
  Claim C8, amended. For every HTTP-ok snapshot response whose body decodes, the fetcher
  returns the validated records of the decoded data when that is a bare array, the
  validated records of its \<^verbatim>\<open>points\<close> field when the data is an object whose
  \<^verbatim>\<open>points\<close> is an array, and the empty sequence for any other decoded shape, without
  failing. Given a response, the fetcher fails exactly when the status is not a success
  or the body cannot be decoded, never because of the decoded shape.
\<close>

theorem fetchHour_shapes:
  assumes "fetch (WB_BASE @ hh @ ''.json'') = Some res"
  shows "(ok res \<and> json res = Some data \<longrightarrow>
            fetchHour fetch hh = Inr (validated (snapshot_rows data)))
         \<and> ((\<exists>e. fetchHour fetch hh = Inl e) \<longleftrightarrow> \<not> ok res \<or> json res = None)"
  using assms
  by (auto simp: fetchHour_eq split: option.splits)

theorem fetchHour_shapes_witness:
  "fetchHour
     (\<lambda>url. Some \<lparr>ok = True, status = 200, content_type = None, body = '''',
                   json = Some (JObj [(''points'',
                     JArr [JArr [JNum (Finite 45), JNum (Finite (- 122))], JStr ''x''])])\<rparr>)
     ''05'' = Inr [\<lparr>lat = Finite 45, lon = Finite (- 122), alt_km = None\<rparr>]
   \<and> validated (snapshot_rows (JObj [(''points'',
        JArr [JArr [JNum (Finite 45), JNum (Finite (- 122))], JStr ''x''])])) =
       [\<lparr>lat = Finite 45, lon = Finite (- 122), alt_km = None\<rparr>]"
  using fetchHour_shapes
    [of "\<lambda>url. Some \<lparr>ok = True, status = 200, content_type = None, body = '''',
                   json = Some (JObj [(''points'',
                     JArr [JArr [JNum (Finite 45), JNum (Finite (- 122))], JStr ''x''])])\<rparr>"
        "''05''"
        "\<lparr>ok = True, status = 200, content_type = None, body = '''',
          json = Some (JObj [(''points'',
            JArr [JArr [JNum (Finite 45), JNum (Finite (- 122))], JStr ''x''])])\<rparr>"
        "JObj [(''points'',
            JArr [JArr [JNum (Finite 45), JNum (Finite (- 122))], JStr ''x''])]"]
  by (simp add: validated_def snapshot_rows_def List.map_filter_simps parseRow_array
        parseRow_not_array elem_def altitude_cases)

section \<open>Facts about the progressive orchestrator\<close>

lemma length_HOURS [simp]: "length HOURS = 24"
  by (simp add: HOURS_def)

lemma cancelled_step: "e \<noteq> Cleanup \<Longrightarrow> cancelled (step e s) = cancelled s"
  by (cases e) (simp_all add: Let_def)

lemma step_cancelled: "cancelled s \<Longrightarrow> step e s = s"
  by (cases e) simp_all

lemma run_cancelled: "cancelled s \<Longrightarrow> run evs s = s"
  by (induction evs) (simp_all add: step_cancelled)

lemma run_append: "run (xs @ ys) s = run ys (run xs s)"
  by (induction xs arbitrary: s) simp_all

lemma run_active:
  "\<not> cancelled s \<Longrightarrow> Cleanup \<notin> set evs \<Longrightarrow> \<not> cancelled (run evs s)"
proof (induction evs arbitrary: s)
  case Nil
  then show ?case by simp
next
  case (Cons e evs)
  from Cons.prems have "e \<noteq> Cleanup" "Cleanup \<notin> set evs"
    by auto
  with Cons show ?case by (simp add: cancelled_step)
qed

lemma error_step: "error (step e s) = error s"
  by (cases e) (simp_all add: Let_def)

lemma error_run: "error (run evs s) = error s"
  by (induction evs arbitrary: s) (simp_all add: error_step)

lemma completed_step:
  "\<not> cancelled s \<Longrightarrow> completed (step e s) = completed s + (if any_finally e then 1 else 0)"
  by (cases e) (simp_all add: Let_def)

lemma completed_run:
  "\<not> cancelled s \<Longrightarrow> Cleanup \<notin> set evs \<Longrightarrow>
   completed (run evs s) = completed s + length (filter any_finally evs)"
proof (induction evs arbitrary: s)
  case Nil
  then show ?case by simp
next
  case (Cons e evs)
  from Cons.prems have ne: "e \<noteq> Cleanup" "Cleanup \<notin> set evs"
    by auto
  with Cons.prems have "\<not> cancelled (step e s)" by (simp add: cancelled_step)
  from Cons.IH [OF this ne(2)] Cons.prems(1) show ?case
    by (simp add: completed_step)
qed

lemma finally_count_event:
  "slot e < n \<Longrightarrow> (\<Sum>i<n. if is_finally i e then 1 else 0) = (if any_finally e then 1 else (0::nat))"
  by (cases e) simp_all

lemma finally_count:
  "list_all (\<lambda>e. slot e < n) evs \<Longrightarrow>
   length (filter any_finally evs) = (\<Sum>i<n. length (filter (is_finally i) evs))"
proof (induction evs)
  case Nil
  then show ?case by simp
next
  case (Cons e evs)
  then have "slot e < n" and IH: "length (filter any_finally evs) = (\<Sum>i<n. length (filter (is_finally i) evs))"
    by simp_all
  have "(\<Sum>i<n. length (filter (is_finally i) (e # evs)))
        = (\<Sum>i<n. (if is_finally i e then 1 else 0) + length (filter (is_finally i) evs))"
    by (rule sum.cong) simp_all
  also have "\<dots> = (\<Sum>i<n. if is_finally i e then 1 else 0) + (\<Sum>i<n. length (filter (is_finally i) evs))"
    by (simp add: sum.distrib)
  finally show ?case
    using IH finally_count_event [OF \<open>slot e < n\<close>] by simp
qed

lemma progress_step:
  "progress s = real (completed s) / real (length HOURS) \<Longrightarrow>
   progress (step e s) = real (completed (step e s)) / real (length HOURS)"
  by (cases e) (simp_all add: Let_def)

lemma progress_run:
  "progress s = real (completed s) / real (length HOURS) \<Longrightarrow>
   progress (run evs s) = real (completed (run evs s)) / real (length HOURS)"
  by (induction evs arbitrary: s) (simp_all add: progress_step del: length_HOURS)

lemma loading_step:
  "(length HOURS \<le> completed s \<longrightarrow> \<not> loading s) \<Longrightarrow>
   (length HOURS \<le> completed (step e s) \<longrightarrow> \<not> loading (step e s))"
  by (cases e) (auto simp: Let_def)

lemma loading_run:
  "(length HOURS \<le> completed s \<longrightarrow> \<not> loading s) \<Longrightarrow>
   (length HOURS \<le> completed (run evs s) \<longrightarrow> \<not> loading (run evs s))"
proof (induction evs arbitrary: s)
  case Nil
  then show ?case by simp
next
  case (Cons e evs)
  from Cons.IH [OF loading_step [OF Cons.prems]] show ?case by simp
qed

lemma assign_in_range: "i < length xs \<Longrightarrow> assign xs i v = xs[i := Some v]"
  by (simp add: assign_def)

lemma length_step:
  "slot e < length HOURS \<Longrightarrow> length (byHour s) = length HOURS \<Longrightarrow>
   length (byHour (step e s)) = length HOURS"
  by (cases e) (simp_all add: Let_def assign_in_range del: length_HOURS)

lemma length_run:
  "events_ok evs \<Longrightarrow> length (byHour s) = length HOURS \<Longrightarrow>
   length (byHour (run evs s)) = length HOURS"
  by (induction evs arbitrary: s) (simp_all add: events_ok_def length_step del: length_HOURS)

lemma filled_step:
  "slot e < length HOURS \<Longrightarrow> well_formed (byHour s) \<Longrightarrow> well_formed (byHour (step e s))"
proof (cases e)
  case (OnThen idx points)
  assume "slot e < length HOURS" "well_formed (byHour s)"
  with OnThen have "idx < length (byHour s)" "list_all (\<lambda>entry. entry \<noteq> None) (byHour s)"
    by (simp_all add: well_formed_def)
  then have "list_all (\<lambda>entry. entry \<noteq> None) ((byHour s)[idx := Some points])"
    by (auto simp: list_all_iff dest: set_update_subset_insert [THEN subsetD])
  with OnThen \<open>idx < length (byHour s)\<close> \<open>well_formed (byHour s)\<close> show ?thesis
    by (simp add: well_formed_def assign_in_range)
qed (simp_all add: Let_def)

lemma filled_run:
  "events_ok evs \<Longrightarrow> well_formed (byHour s) \<Longrightarrow> well_formed (byHour (run evs s))"
  by (induction evs arbitrary: s) (simp_all add: events_ok_def filled_step del: length_HOURS)

lemma events_ok_take: "events_ok evs \<Longrightarrow> events_ok (take n evs)"
  by (auto simp: events_ok_def list_all_iff dest: in_set_takeD)

lemma byHour_untouched:
  "filter (is_then i) evs = [] \<Longrightarrow> events_ok evs \<Longrightarrow> length (byHour s) = length HOURS \<Longrightarrow>
   byHour (run evs s) ! i = byHour s ! i"
proof (induction evs arbitrary: s)
  case Nil
  then show ?case by simp
next
  case (Cons e evs)
  from Cons.prems have ok: "slot e < length HOURS" "events_ok evs"
    and nt: "\<not> is_then i e" "filter (is_then i) evs = []"
    by (simp_all add: events_ok_def split: if_splits)
  from ok(1) Cons.prems(3) have len: "length (byHour (step e s)) = length HOURS"
    by (rule length_step)
  have "byHour (step e s) ! i = byHour s ! i"
  proof (cases e)
    case (OnThen idx points)
    with nt(1) have "idx \<noteq> i" by simp
    moreover from OnThen ok(1) Cons.prems(3) have "idx < length (byHour s)" by simp
    ultimately show ?thesis using OnThen by (simp add: assign_in_range)
  qed (simp_all add: Let_def)
  with Cons.IH [OF nt(2) ok(2) len] show ?case by simp
qed

lemma byHour_written:
  "filter (is_then i) evs = [OnThen i points] \<Longrightarrow> events_ok evs \<Longrightarrow>
   \<not> cancelled s \<Longrightarrow> Cleanup \<notin> set evs \<Longrightarrow> length (byHour s) = length HOURS \<Longrightarrow>
   i < length HOURS \<Longrightarrow> byHour (run evs s) ! i = Some points"
proof (induction evs arbitrary: s)
  case Nil
  then show ?case by simp
next
  case (Cons e evs)
  from Cons.prems have ok: "slot e < length HOURS" "events_ok evs"
    and nc: "e \<noteq> Cleanup" "Cleanup \<notin> set evs"
    by (auto simp: events_ok_def)
  from ok(1) Cons.prems(5) have len: "length (byHour (step e s)) = length HOURS"
    by (rule length_step)
  from nc(1) Cons.prems(3) have act: "\<not> cancelled (step e s)"
    by (simp add: cancelled_step)
  show ?case
  proof (cases "is_then i e")
    case True
    with Cons.prems(1) have e: "e = OnThen i points" and rest: "filter (is_then i) evs = []"
      by simp_all
    from e Cons.prems(3,5,6) have "byHour (step e s) ! i = Some points"
      by (simp add: assign_in_range)
    with byHour_untouched [OF rest ok(2) len] show ?thesis by simp
  next
    case False
    with Cons.prems(1) have "filter (is_then i) evs = [OnThen i points]" by simp
    from Cons.IH [OF this ok(2) act nc(2) len Cons.prems(6)] show ?thesis by simp
  qed
qed

lemma full_cycle_unfold:
  assumes "full_cycle outcome evs"
  shows "events_ok evs" "Cleanup \<notin> set evs"
    and "\<And>i. i < length HOURS \<Longrightarrow> filter (is_finally i) evs = [OnFinally i]"
    and "\<And>i. i < length HOURS \<Longrightarrow>
           filter (is_then i) evs =
             (case outcome (HOURS ! i) of Inr points \<Rightarrow> [OnThen i points] | Inl e \<Rightarrow> [])"
  using assms by (simp_all add: full_cycle_def list_all_iff del: length_HOURS)

lemma effect_simps:
  "\<not> cancelled (effect s)" "completed (effect s) = 0" "loading (effect s)"
  "error (effect s) = ''''" "byHour (effect s) = replicate (length HOURS) (Some [])"
  "progress (effect s) = 0"
  by (simp_all add: effect_def)

lemma full_cycle_completed:
  assumes "full_cycle outcome evs"
  shows "completed (run evs (effect s)) = length HOURS"
proof -
  note fc = full_cycle_unfold [OF assms]
  from fc(1) have "length (filter any_finally evs)
      = (\<Sum>i<length HOURS. length (filter (is_finally i) evs))"
    unfolding events_ok_def by (rule finally_count)
  also have "\<dots> = (\<Sum>i<length HOURS. 1)"
    by (rule sum.cong) (simp_all add: fc(3) del: length_HOURS)
  finally have "length (filter any_finally evs) = length HOURS" by simp
  with completed_run [OF effect_simps(1) fc(2), of s] show ?thesis
    by (simp add: effect_simps)
qed

lemma full_cycle_byHour:
  assumes "full_cycle outcome evs"
  shows "byHour (run evs (effect s)) = map (\<lambda>hh. Some (slot_result (outcome hh))) HOURS"
proof (rule nth_equalityI)
  note fc = full_cycle_unfold [OF assms]
  have len0: "length (byHour (effect s)) = length HOURS"
    by (simp add: effect_simps)
  from length_run [OF fc(1) len0]
  show "length (byHour (run evs (effect s))) = length (map (\<lambda>hh. Some (slot_result (outcome hh))) HOURS)"
    by simp
  fix i
  assume "i < length (byHour (run evs (effect s)))"
  with length_run [OF fc(1) len0] have i: "i < length HOURS" by simp
  show "byHour (run evs (effect s)) ! i = map (\<lambda>hh. Some (slot_result (outcome hh))) HOURS ! i"
  proof (cases "outcome (HOURS ! i)")
    case (Inl err)
    with fc(4) [OF i] have "filter (is_then i) evs = []" by simp
    from byHour_untouched [OF this fc(1) len0] i Inl show ?thesis
      by (simp add: effect_simps slot_result_def del: length_HOURS)
  next
    case (Inr points)
    with fc(4) [OF i] have "filter (is_then i) evs = [OnThen i points]" by simp
    from byHour_written [OF this fc(1) effect_simps(1) fc(2) len0 i] i Inr show ?thesis
      by (simp add: slot_result_def del: length_HOURS)
  qed
qed


lemma distinct_HOURS: "distinct HOURS"
  by code_simp

lemma concat_single:
  "i < n \<Longrightarrow> concat (map (\<lambda>j. if j = i then ys else []) [0..<n]) = ys"
  by (induction n) (auto simp: less_Suc_eq)

lemma filter_finally_callbacks:
  "filter (is_finally i) (callbacks outcome j) = (if j = i then [OnFinally i] else [])"
  by (simp add: callbacks_def split: sum.splits)

lemma filter_then_callbacks:
  "filter (is_then i) (callbacks outcome j) =
     (if j = i then (case outcome (HOURS ! i) of Inr points \<Rightarrow> [OnThen i points] | Inl e \<Rightarrow> [])
      else [])"
  by (simp add: callbacks_def split: sum.splits)

lemma set_callbacks: "e \<in> set (callbacks outcome j) \<Longrightarrow> e \<noteq> Cleanup \<and> slot e = j"
  by (auto simp: callbacks_def split: sum.splits)

lemma full_cycle_in_order: "full_cycle outcome (in_order outcome)"
proof -
  have ok: "events_ok (in_order outcome)"
    by (auto simp: events_ok_def in_order_def list_all_iff dest: set_callbacks
             simp del: length_HOURS)
  have nc: "Cleanup \<notin> set (in_order outcome)"
    by (auto simp: in_order_def dest: set_callbacks)
  have "filter (is_finally i) (in_order outcome) = [OnFinally i]
        \<and> filter (is_then i) (in_order outcome) =
            (case outcome (HOURS ! i) of Inr points \<Rightarrow> [OnThen i points] | Inl e \<Rightarrow> [])"
    if "i < length HOURS" for i
    using that
    by (simp add: in_order_def filter_concat comp_def filter_finally_callbacks
          filter_then_callbacks concat_single del: length_HOURS)
  with ok nc show ?thesis
    by (simp add: full_cycle_def list_all_iff del: length_HOURS)
qed

section \<open>The Points of the model: claims\<close>

lemma stored_assign:
  assumes "stored P b" "list_all P ps"
  shows "stored P (assign b i ps)"
proof -
  have "set (assign b i ps) \<subseteq> insert (Some ps) (insert None (set b))"
    by (auto simp: assign_def dest: set_update_subset_insert [THEN subsetD])
  with assms show ?thesis
    by (auto simp: stored_def list_all_iff split: option.splits)
qed

lemma stored_step:
  assumes "stored P (byHour s)"
    and "\<And>idx points. e = OnThen idx points \<Longrightarrow> list_all P points"
  shows "stored P (byHour (step e s))"
  using assms by (cases e) (simp_all add: Let_def stored_assign)

lemma stored_run:
  assumes "stored P (byHour s)"
    and "\<And>idx points. OnThen idx points \<in> set evs \<Longrightarrow> list_all P points"
  shows "stored P (byHour (run evs s))"
  using assms
proof (induction evs arbitrary: s)
  case Nil
  then show ?case by simp
next
  case (Cons e evs)
  have "stored P (byHour (step e s))"
    using Cons.prems by (intro stored_step) auto
  moreover have "list_all P points" if "OnThen idx points \<in> set evs" for idx points
    using that Cons.prems(2) [of idx points] by simp
  ultimately show ?case
    using Cons.IH [of "step e s"] by simp
qed

lemma fetchHour_Points:
  assumes "fetchHour fetch hh = Inr ps"
  shows "list_all (\<lambda>q. lat q = NaN \<or> lon q = NaN \<or> valid_Point q) ps"
proof -
  from assms obtain data where ps: "ps = validated (snapshot_rows data)"
    by (auto elim: fetchHour_Inr)
  have "lat q = NaN \<or> lon q = NaN \<or> valid_Point q" if "q \<in> set ps" for q
  proof -
    from that ps obtain r where "parseRow r = Some q"
      by (auto dest: validated_valid)
    from parseRow_ranges [OF this] show ?thesis
      by (auto simp: valid_Point_def)
  qed
  then show ?thesis by (simp add: list_all_iff)
qed

lemma stored_fetched:
  assumes "fetched_events fetch evs"
  shows "stored (\<lambda>q. lat q = NaN \<or> lon q = NaN \<or> valid_Point q) (byHour (run evs (effect s)))"
proof (rule stored_run)
  show "stored (\<lambda>q. lat q = NaN \<or> lon q = NaN \<or> valid_Point q) (byHour (effect s))"
    by (simp add: stored_def effect_simps list_all_iff)
next
  fix idx points
  assume "OnThen idx points \<in> set evs"
  with assms have "fetchHour fetch (HOURS ! idx) = Inr points"
    by (auto simp: fetched_events_def list_all_iff)
  then show "list_all (\<lambda>q. lat q = NaN \<or> lon q = NaN \<or> valid_Point q) points"
    by (rule fetchHour_Points)
qed

lemma parseRow_Row_Validator:
  assumes "\<not> NaN_coordinate row"
  shows "parseRow row = Row_Validator row"
proof (cases row)
  case (JArr xs)
  show ?thesis
  proof (cases xs)
    case Nil
    with JArr show ?thesis by (simp add: parseRow_array Row_Validator_def)
  next
    case (Cons x ys)
    note xs = this
    show ?thesis
    proof (cases ys)
      case Nil
      with JArr xs show ?thesis
        by (simp add: parseRow_array Row_Validator_def split: jsval.splits)
    next
      case (Cons y rest)
      with JArr xs assms show ?thesis
        by (auto simp: parseRow_array Row_Validator_def NaN_coordinate_def elem_def
                 altitude_cases beyond_iff split: jsval.splits list.splits)
    qed
  qed
qed (simp_all add: parseRow_def Row_Validator_def)

lemma map_filter_cong_set:
  "(\<And>x. x \<in> set xs \<Longrightarrow> f x = g x) \<Longrightarrow> List.map_filter f xs = List.map_filter g xs"
proof (induction xs)
  case Nil
  show ?case by (simp add: List.map_filter_simps)
next
  case (Cons a xs)
  then have "f a = g a" "List.map_filter f xs = List.map_filter g xs"
    by simp_all
  then show ?case by (simp add: List.map_filter_simps split: option.splits)
qed

lemma fetchHour_Row_Validator:
  assumes "fetch (WB_BASE @ hh @ ''.json'') = Some res" "ok res" "json res = Some data"
    and "list_all (\<lambda>r. \<not> NaN_coordinate r) (snapshot_rows data)"
  shows "fetchHour fetch hh = Inr (List.map_filter Row_Validator (snapshot_rows data))"
proof -
  have "List.map_filter parseRow (snapshot_rows data)
        = List.map_filter Row_Validator (snapshot_rows data)"
    using assms(4) by (intro map_filter_cong_set parseRow_Row_Validator) (simp add: list_all_iff)
  with assms(1-3) show ?thesis
    by (simp add: fetchHour_eq validated_def)
qed

lemma slots_fetched_step:
  assumes "slots_fetched fetch (byHour s)"
    and "\<And>idx points. e = OnThen idx points \<Longrightarrow>
           idx < length HOURS \<and> fetchHour fetch (HOURS ! idx) = Inr points"
  shows "slots_fetched fetch (byHour (step e s))"
proof (cases e)
  case (OnThen idx points)
  with assms(2) have idx: "idx < length HOURS" and f: "fetchHour fetch (HOURS ! idx) = Inr points"
    by simp_all
  from assms(1) idx have len: "idx < length (byHour s)"
    by (simp add: slots_fetched_def)
  show ?thesis
  proof (cases "cancelled s")
    case True
    with OnThen assms(1) show ?thesis by simp
  next
    case False
    with OnThen len have "byHour (step e s) = (byHour s)[idx := Some points]"
      by (simp add: assign_in_range)
    with assms(1) f len show ?thesis
      by (auto simp: slots_fetched_def list_all_iff nth_list_update simp del: length_HOURS)
  qed
qed (use assms(1) in \<open>simp_all add: Let_def\<close>)

lemma slots_fetched_run:
  assumes "slots_fetched fetch (byHour s)" "fetched_events fetch evs"
  shows "slots_fetched fetch (byHour (run evs s))"
  using assms
proof (induction evs arbitrary: s)
  case Nil
  then show ?case by simp
next
  case (Cons e evs)
  from Cons.prems(2) have e: "\<And>idx points. e = OnThen idx points \<Longrightarrow>
           idx < length HOURS \<and> fetchHour fetch (HOURS ! idx) = Inr points"
    and rest: "fetched_events fetch evs"
    by (auto simp: fetched_events_def simp del: length_HOURS)
  from slots_fetched_step [OF Cons.prems(1) e] have "slots_fetched fetch (byHour (step e s))"
    by blast
  from Cons.IH [OF this rest] show ?case by simp
qed

lemma slots_fetched_effect: "slots_fetched fetch (byHour (effect s))"
  by (simp add: slots_fetched_def effect_simps list_all_iff del: length_HOURS)

lemma Row_Validator_valid: "Row_Validator row = Some p \<Longrightarrow> valid_Point p"
  by (auto simp: Row_Validator_def valid_Point_def split: jsval.splits list.splits if_splits)

text \<open>
  Claim C4, as stated: every Point the row validator produces satisfies its range
  constraints, for all raw inputs, non-finite numbers included. It fails for NaN: the
  comparisons \<^verbatim>\<open>lat < -90 || lat > 90\<close> are both false for NaN, the row is kept, and the
  Point's latitude is not in [-90,90].
\<close>

theorem NaN_latitude_counterexample:
  "parseRow (JArr [JNum NaN, JNum (Finite 0)]) =
     Some \<lparr>lat = NaN, lon = Finite 0, alt_km = None\<rparr>
   \<and> \<not> valid_Point \<lparr>lat = NaN, lon = Finite 0, alt_km = None\<rparr>"
  by (simp add: parseRow_array elem_def altitude_cases valid_Point_def)

text \<open>
  Claim C4, amended. On every raw record whose latitude and longitude are not NaN, the
  infinities included, \<open>parseRow\<close> is the row validator of the specification: a record
  that violates a constraint on its shape, latitude or longitude yields no Point, and an
  accepted record yields the Point of its own latitude and longitude, both in range,
  with its own altitude when that is a number in [0,40] and none otherwise. For every raw
  record, the altitude of a produced Point, when present, is in [0,40], and its latitude
  and longitude are in range unless they are NaN. So the list \<open>fetchHour\<close> returns for a
  decoded body without NaN coordinates holds exactly the Points of the rows that satisfy
  the constraints; and at any moment of a cycle fed by \<open>fetchHour\<close>, every entry of
  \<open>byHour\<close> is the empty list or the list \<open>fetchHour\<close> returned for that hour, and
  every stored Point whose latitude and longitude are not NaN satisfies its range
  constraints.
\<close>

theorem Points_within_ranges:
  "(\<not> NaN_coordinate row \<longrightarrow> parseRow row = Row_Validator row)
   \<and> (parseRow row = Some p \<longrightarrow>
      (lat p = NaN \<or> in_range (- 90) 90 (lat p))
      \<and> (lon p = NaN \<or> in_range (- 180) 180 (lon p))
      \<and> (case alt_km p of None \<Rightarrow> True | Some a \<Rightarrow> in_range 0 40 a))
   \<and> (fetchHour fetch hh = Inr ps \<longrightarrow>
        (\<forall>q \<in> set ps. lat q \<noteq> NaN \<and> lon q \<noteq> NaN \<longrightarrow> valid_Point q))
   \<and> (fetch (WB_BASE @ hh @ ''.json'') = Some res \<and> ok res \<and> json res = Some data
        \<and> list_all (\<lambda>r. \<not> NaN_coordinate r) (snapshot_rows data) \<longrightarrow>
        fetchHour fetch hh = Inr (List.map_filter Row_Validator (snapshot_rows data)))
   \<and> (fetched_events fetch evs \<longrightarrow>
        slots_fetched fetch (byHour (run evs (effect s)))
        \<and> (\<forall>entry \<in> set (byHour (run evs (effect s))). \<forall>qs. entry = Some qs \<longrightarrow>
             (\<forall>q \<in> set qs. lat q \<noteq> NaN \<and> lon q \<noteq> NaN \<longrightarrow> valid_Point q)))"
proof -
  have a: "\<not> NaN_coordinate row \<longrightarrow> parseRow row = Row_Validator row"
    by (simp add: parseRow_Row_Validator)
  have b: "parseRow row = Some p \<longrightarrow>
      (lat p = NaN \<or> in_range (- 90) 90 (lat p))
      \<and> (lon p = NaN \<or> in_range (- 180) 180 (lon p))
      \<and> (case alt_km p of None \<Rightarrow> True | Some a \<Rightarrow> in_range 0 40 a)"
    by (simp add: parseRow_ranges)
  have c: "fetchHour fetch hh = Inr ps \<longrightarrow>
        (\<forall>q \<in> set ps. lat q \<noteq> NaN \<and> lon q \<noteq> NaN \<longrightarrow> valid_Point q)"
    using fetchHour_Points [of fetch hh ps] by (auto simp: list_all_iff)
  have d: "fetch (WB_BASE @ hh @ ''.json'') = Some res \<and> ok res \<and> json res = Some data
        \<and> list_all (\<lambda>r. \<not> NaN_coordinate r) (snapshot_rows data) \<longrightarrow>
        fetchHour fetch hh = Inr (List.map_filter Row_Validator (snapshot_rows data))"
    by (simp add: fetchHour_Row_Validator)
  have e: "slots_fetched fetch (byHour (run evs (effect s)))
        \<and> (\<forall>entry \<in> set (byHour (run evs (effect s))). \<forall>qs. entry = Some qs \<longrightarrow>
             (\<forall>q \<in> set qs. lat q \<noteq> NaN \<and> lon q \<noteq> NaN \<longrightarrow> valid_Point q))"
    if fe: "fetched_events fetch evs"
  proof (intro conjI ballI allI impI)
    from slots_fetched_effect fe show "slots_fetched fetch (byHour (run evs (effect s)))"
      by (rule slots_fetched_run)
  next
    fix entry qs q
    assume "entry \<in> set (byHour (run evs (effect s)))" "entry = Some qs" "q \<in> set qs"
      and nn: "lat q \<noteq> NaN \<and> lon q \<noteq> NaN"
    with stored_fetched [OF fe, of s]
    have "list_all (\<lambda>q. lat q = NaN \<or> lon q = NaN \<or> valid_Point q) qs"
      by (auto simp: stored_def list_all_iff split: option.splits)
    with \<open>q \<in> set qs\<close> nn show "valid_Point q"
      by (auto simp: list_all_iff)
  qed
  from a b c d e show ?thesis by blast
qed

theorem Points_within_ranges_witness:
  "\<not> NaN_coordinate (JArr [JNum (Finite 200), JNum PInf, JNum (Finite 5)])
   \<and> Row_Validator (JArr [JNum (Finite 200), JNum PInf, JNum (Finite 5)]) = None
   \<and> parseRow (JArr [JNum (Finite 200), JNum PInf, JNum (Finite 5)]) = None
   \<and> parseRow (JArr [JNum (Finite 45), JNum (Finite (- 122)), JNum (Finite 5.2)]) =
       Some \<lparr>lat = Finite 45, lon = Finite (- 122), alt_km = Some (Finite 5.2)\<rparr>
   \<and> fetchHour
        (\<lambda>url. Some \<lparr>ok = True, status = 200, content_type = None, body = '''',
                      json = Some (JArr
                        [JArr [JNum (Finite 45), JNum (Finite (- 122)), JNum (Finite 5.2)],
                         JArr [JNum (Finite 200), JNum PInf, JNum (Finite 5)]])\<rparr>) ''00'' =
       Inr [\<lparr>lat = Finite 45, lon = Finite (- 122), alt_km = Some (Finite 5.2)\<rparr>]
   \<and> fetched_events
        (\<lambda>url. Some \<lparr>ok = True, status = 200, content_type = None, body = '''',
                      json = Some (JArr
                        [JArr [JNum (Finite 45), JNum (Finite (- 122)), JNum (Finite 5.2)],
                         JArr [JNum (Finite 200), JNum PInf, JNum (Finite 5)]])\<rparr>)
        [OnThen 0 [\<lparr>lat = Finite 45, lon = Finite (- 122), alt_km = Some (Finite 5.2)\<rparr>],
         OnFinally 0]
   \<and> byHour
        (run [OnThen 0 [\<lparr>lat = Finite 45, lon = Finite (- 122), alt_km = Some (Finite 5.2)\<rparr>],
              OnFinally 0] (effect useState_init)) ! 0 =
       Some [\<lparr>lat = Finite 45, lon = Finite (- 122), alt_km = Some (Finite 5.2)\<rparr>]
   \<and> valid_Point \<lparr>lat = Finite 45, lon = Finite (- 122), alt_km = Some (Finite 5.2)\<rparr>"
  using Points_within_ranges
    [of "JArr [JNum (Finite 200), JNum PInf, JNum (Finite 5)]"
        "\<lparr>lat = Finite 45, lon = Finite (- 122), alt_km = Some (Finite 5.2)\<rparr>"
        "\<lambda>url. Some \<lparr>ok = True, status = 200, content_type = None, body = '''',
                      json = Some (JArr
                        [JArr [JNum (Finite 45), JNum (Finite (- 122)), JNum (Finite 5.2)],
                         JArr [JNum (Finite 200), JNum PInf, JNum (Finite 5)]])\<rparr>"
        "''00''"
        "[\<lparr>lat = Finite 45, lon = Finite (- 122), alt_km = Some (Finite 5.2)\<rparr>]"
        "\<lparr>ok = True, status = 200, content_type = None, body = '''',
          json = Some (JArr
            [JArr [JNum (Finite 45), JNum (Finite (- 122)), JNum (Finite 5.2)],
             JArr [JNum (Finite 200), JNum PInf, JNum (Finite 5)]])\<rparr>"
        "JArr [JArr [JNum (Finite 45), JNum (Finite (- 122)), JNum (Finite 5.2)],
               JArr [JNum (Finite 200), JNum PInf, JNum (Finite 5)]]"
        "[OnThen 0 [\<lparr>lat = Finite 45, lon = Finite (- 122), alt_km = Some (Finite 5.2)\<rparr>],
          OnFinally 0]"
        useState_init]
  by (simp add: fetchHour_def rows_of_def parseRow_array elem_def altitude_cases
        fetched_events_def effect_def useState_init_def assign_def Let_def
        NaN_coordinate_def Row_Validator_def)


text \<open>The Promise.all variant after its teardown: the continuation changes nothing.\<close>

lemma all_settled_cancelled: "all_settled outcome (cleanup_all s) = cleanup_all s"
  by (simp add: all_settled_def cleanup_all_def Let_def)

section \<open>The ingestion orchestrator: claims\<close>

text \<open>
  Claim C3. Whatever subset of the 24 hourly fetches fails (none, some or all), a full
  cycle of the progressive orchestrator ends with the completion count at 24 and the
  progress at 1, every failed hour's entry the empty point list, every successful
  hour's entry its fetched point list, loading ended and no error surfaced. This holds
  for every interleaving of the callbacks, and for every assignment of outcomes there is
  a full cycle.
\<close>

theorem full_cycle_succeeds:
  "full_cycle outcome (in_order outcome)
   \<and> (full_cycle outcome evs \<longrightarrow>
        completed (run evs (effect s)) = 24
        \<and> progress (run evs (effect s)) = 1
        \<and> loading (run evs (effect s)) = False
        \<and> error (run evs (effect s)) = ''''
        \<and> byHour (run evs (effect s)) = map (\<lambda>hh. Some (slot_result (outcome hh))) HOURS)"
proof (rule conjI, rule full_cycle_in_order, rule impI)
  assume assms: "full_cycle outcome evs"
  have c: "completed (run evs (effect s)) = 24"
    using full_cycle_completed [OF assms, of s] by simp
  have "progress (effect s) = real (completed (effect s)) / real (length HOURS)"
    by (simp add: effect_simps)
  from progress_run [OF this, of evs] c have p: "progress (run evs (effect s)) = 1"
    by simp
  have "length HOURS \<le> completed (effect s) \<longrightarrow> \<not> loading (effect s)"
    by (simp add: effect_simps)
  from loading_run [OF this, of evs] c have l: "loading (run evs (effect s)) = False"
    by simp
  from c p l
  show "completed (run evs (effect s)) = 24
        \<and> progress (run evs (effect s)) = 1
        \<and> loading (run evs (effect s)) = False
        \<and> error (run evs (effect s)) = ''''
        \<and> byHour (run evs (effect s)) = map (\<lambda>hh. Some (slot_result (outcome hh))) HOURS"
    by (simp add: error_run effect_simps full_cycle_byHour [OF assms])
qed

theorem full_cycle_succeeds_witness:
  "full_cycle
     (\<lambda>hh. if hh = ''23'' then Inl (HttpError hh 500)
            else Inr [\<lparr>lat = Finite 45, lon = Finite (- 122), alt_km = None\<rparr>])
     (map (\<lambda>i. OnThen i [\<lparr>lat = Finite 45, lon = Finite (- 122), alt_km = None\<rparr>]) [0..<23]
        @ [OnCatch 23] @ map OnFinally (rev [0..<24]))
   \<and> completed
        (run (map (\<lambda>i. OnThen i [\<lparr>lat = Finite 45, lon = Finite (- 122), alt_km = None\<rparr>]) [0..<23]
                @ [OnCatch 23] @ map OnFinally (rev [0..<24]))
           (effect useState_init)) = 24
   \<and> progress
        (run (map (\<lambda>i. OnThen i [\<lparr>lat = Finite 45, lon = Finite (- 122), alt_km = None\<rparr>]) [0..<23]
                @ [OnCatch 23] @ map OnFinally (rev [0..<24]))
           (effect useState_init)) = 1
   \<and> byHour
        (run (map (\<lambda>i. OnThen i [\<lparr>lat = Finite 45, lon = Finite (- 122), alt_km = None\<rparr>]) [0..<23]
                @ [OnCatch 23] @ map OnFinally (rev [0..<24]))
           (effect useState_init)) ! 23 = Some []"
proof -
  have fc: "full_cycle
     (\<lambda>hh. if hh = ''23'' then Inl (HttpError hh 500)
            else Inr [\<lparr>lat = Finite 45, lon = Finite (- 122), alt_km = None\<rparr>])
     (map (\<lambda>i. OnThen i [\<lparr>lat = Finite 45, lon = Finite (- 122), alt_km = None\<rparr>]) [0..<23]
        @ [OnCatch 23] @ map OnFinally (rev [0..<24]))"
    by code_simp
  have h: "HOURS ! 23 = ''23''"
    by code_simp
  from full_cycle_succeeds
    [of "\<lambda>hh. if hh = ''23'' then Inl (HttpError hh 500)
              else Inr [\<lparr>lat = Finite 45, lon = Finite (- 122), alt_km = None\<rparr>]"
        "map (\<lambda>i. OnThen i [\<lparr>lat = Finite 45, lon = Finite (- 122), alt_km = None\<rparr>]) [0..<23]
           @ [OnCatch 23] @ map OnFinally (rev [0..<24])"
        useState_init] fc h
  show ?thesis
    by (simp add: slot_result_def)
qed


text \<open>
  Claim C5, as stated: at every observable moment of a cycle, from its start, the
  orchestrator's \<^verbatim>\<open>byHour\<close> has exactly 24 entries. It fails for the Promise.all
  variant of \<^verbatim>\<open>useWindborne\<close>, whose \<^verbatim>\<open>byHour\<close> is the empty array from the
  first render until all 24 fetches have settled.
\<close>

theorem Promise_all_counterexample:
  "byHour_all (effect_all useState_init_all) = []
   \<and> \<not> well_formed (byHour_all (effect_all useState_init_all))"
  by (simp add: effect_all_def useState_init_all_def well_formed_def)


text \<open>
  Claim C5, amended. In the progressive orchestrator \<^verbatim>\<open>byHour\<close> has exactly 24
  entries, each a (possibly empty) list of Points, at every observable moment: at the
  first render, at the start of a cycle and after every prefix of every sequence of
  callbacks and teardowns; partial completion never yields a shorter or sparse array.
  In the Promise.all variant \<^verbatim>\<open>byHour\<close> is empty until the 24 fetches have
  settled, and has 24 entries, each a list of Points, from then on.
\<close>

theorem progressive_well_formed:
  "well_formed (byHour useState_init)
   \<and> (events_ok evs \<longrightarrow> well_formed (byHour (run (take n evs) (effect s))))
   \<and> byHour_all (effect_all useState_init_all) = []
   \<and> well_formed (byHour_all (all_settled outcome (effect_all s')))"
proof -
  have a: "well_formed (byHour useState_init)"
    by (simp add: well_formed_def useState_init_def list_all_iff)
  have "well_formed (byHour (effect s))"
    by (simp add: well_formed_def effect_simps list_all_iff)
  then have b: "events_ok evs \<longrightarrow> well_formed (byHour (run (take n evs) (effect s)))"
    by (auto intro: filled_run events_ok_take)
  have c: "byHour_all (effect_all useState_init_all) = []"
    by (simp add: effect_all_def useState_init_all_def)
  have d: "well_formed (byHour_all (all_settled outcome (effect_all s')))"
    by (simp add: well_formed_def all_settled_def effect_all_def Let_def list_all_iff)
  from a b c d show ?thesis by blast
qed

theorem progressive_well_formed_witness:
  "events_ok [OnThen 5 [], OnFinally 5, OnCatch 7, Cleanup, OnFinally 7]
   \<and> well_formed (byHour (run (take 2 [OnThen 5 [], OnFinally 5, OnCatch 7, Cleanup, OnFinally 7])
         (effect useState_init)))"
  using progressive_well_formed
    [of "[OnThen 5 [], OnFinally 5, OnCatch 7, Cleanup, OnFinally 7]" 2 useState_init
        "\<lambda>hh. Inr []" useState_init_all]
  by (simp add: events_ok_def)


text \<open>
  Claim C7. Once the teardown has set the cancelled flag in the middle of a cycle,
  whatever callbacks of whatever fetches run afterwards (fulfilled or rejected) change
  nothing: \<^verbatim>\<open>byHour\<close>, \<^verbatim>\<open>progress\<close>, \<^verbatim>\<open>loading\<close> and \<^verbatim>\<open>error\<close> stay as
  they were at the teardown, the completion counter too, and no state setter is called.
\<close>

theorem teardown_freezes_state:
  "run (pre @ Cleanup # post) s = (run pre s)\<lparr>cancelled := True\<rparr>
   \<and> setCalls (run (pre @ Cleanup # post) s) = setCalls (run pre s)"
  by (simp add: run_append run_cancelled)

theorem teardown_freezes_state_witness:
  "byHour (run ([OnThen 0 [], OnFinally 0] @ Cleanup # [OnThen 1 [], OnFinally 1, OnCatch 2, OnFinally 2])
      (effect useState_init))
     = byHour (run [OnThen 0 [], OnFinally 0] (effect useState_init))
   \<and> setCalls (run ([OnThen 0 [], OnFinally 0] @ Cleanup # [OnThen 1 [], OnFinally 1, OnCatch 2, OnFinally 2])
      (effect useState_init)) = 6
   \<and> completed (run ([OnThen 0 [], OnFinally 0] @ Cleanup # [OnThen 1 [], OnFinally 1, OnCatch 2, OnFinally 2])
      (effect useState_init)) = 1"
  using teardown_freezes_state
    [of "[OnThen 0 [], OnFinally 0]" "[OnThen 1 [], OnFinally 1, OnCatch 2, OnFinally 2]"
        "effect useState_init"]
  by (simp add: effect_def useState_init_def Let_def assign_def)


text \<open>
  Claim C10. For every assignment of outcomes to the 24 hours, the Promise.all variant
  and the progressive variant, each run to completion without teardown, end with the
  same \<^verbatim>\<open>byHour\<close>: 24 entries, the entry of an hour being its point list when the
  fetch succeeded and the empty list when it failed.
\<close>

theorem variants_agree:
  assumes "full_cycle outcome evs"
  shows "byHour (run evs (effect s)) = byHour_all (all_settled outcome (effect_all s'))
         \<and> byHour_all (all_settled outcome (effect_all s')) =
             map (\<lambda>hh. Some (slot_result (outcome hh))) HOURS"
  by (simp add: full_cycle_byHour [OF assms] all_settled_def effect_all_def Let_def
        hour_task_def slot_result_def)

theorem variants_agree_witness:
  "full_cycle
     (\<lambda>hh. if hh = ''05'' then Inl NetworkError
            else if hh = ''00''
              then Inr [\<lparr>lat = Finite 45, lon = Finite (- 122), alt_km = None\<rparr>,
                        \<lparr>lat = Finite 10, lon = Finite 20, alt_km = Some (Finite 12)\<rparr>]
              else Inr [\<lparr>lat = Finite 45, lon = Finite (- 122), alt_km = None\<rparr>])
     (OnThen 0 [\<lparr>lat = Finite 45, lon = Finite (- 122), alt_km = None\<rparr>,
                \<lparr>lat = Finite 10, lon = Finite 20, alt_km = Some (Finite 12)\<rparr>]
        # map (\<lambda>i. OnThen i [\<lparr>lat = Finite 45, lon = Finite (- 122), alt_km = None\<rparr>])
            ([1..<5] @ [6..<24])
        @ [OnCatch 5] @ map OnFinally (rev [0..<24]))
   \<and> byHour
        (run (OnThen 0 [\<lparr>lat = Finite 45, lon = Finite (- 122), alt_km = None\<rparr>,
                        \<lparr>lat = Finite 10, lon = Finite 20, alt_km = Some (Finite 12)\<rparr>]
                # map (\<lambda>i. OnThen i [\<lparr>lat = Finite 45, lon = Finite (- 122), alt_km = None\<rparr>])
                    ([1..<5] @ [6..<24])
                @ [OnCatch 5] @ map OnFinally (rev [0..<24]))
           (effect useState_init))
      = byHour_all
          (all_settled
             (\<lambda>hh. if hh = ''05'' then Inl NetworkError
                    else if hh = ''00''
                      then Inr [\<lparr>lat = Finite 45, lon = Finite (- 122), alt_km = None\<rparr>,
                                \<lparr>lat = Finite 10, lon = Finite 20, alt_km = Some (Finite 12)\<rparr>]
                      else Inr [\<lparr>lat = Finite 45, lon = Finite (- 122), alt_km = None\<rparr>])
             (effect_all useState_init_all))
   \<and> byHour_all
        (all_settled
           (\<lambda>hh. if hh = ''05'' then Inl NetworkError
                  else if hh = ''00''
                    then Inr [\<lparr>lat = Finite 45, lon = Finite (- 122), alt_km = None\<rparr>,
                              \<lparr>lat = Finite 10, lon = Finite 20, alt_km = Some (Finite 12)\<rparr>]
                    else Inr [\<lparr>lat = Finite 45, lon = Finite (- 122), alt_km = None\<rparr>])
           (effect_all useState_init_all)) ! 0
      = Some [\<lparr>lat = Finite 45, lon = Finite (- 122), alt_km = None\<rparr>,
              \<lparr>lat = Finite 10, lon = Finite 20, alt_km = Some (Finite 12)\<rparr>]
   \<and> byHour_all
        (all_settled
           (\<lambda>hh. if hh = ''05'' then Inl NetworkError
                  else if hh = ''00''
                    then Inr [\<lparr>lat = Finite 45, lon = Finite (- 122), alt_km = None\<rparr>,
                              \<lparr>lat = Finite 10, lon = Finite 20, alt_km = Some (Finite 12)\<rparr>]
                    else Inr [\<lparr>lat = Finite 45, lon = Finite (- 122), alt_km = None\<rparr>])
           (effect_all useState_init_all)) ! 5
      = Some []
   \<and> byHour_all
        (all_settled
           (\<lambda>hh. if hh = ''05'' then Inl NetworkError
                  else if hh = ''00''
                    then Inr [\<lparr>lat = Finite 45, lon = Finite (- 122), alt_km = None\<rparr>,
                              \<lparr>lat = Finite 10, lon = Finite 20, alt_km = Some (Finite 12)\<rparr>]
                    else Inr [\<lparr>lat = Finite 45, lon = Finite (- 122), alt_km = None\<rparr>])
           (effect_all useState_init_all)) ! 7
      = Some [\<lparr>lat = Finite 45, lon = Finite (- 122), alt_km = None\<rparr>]"
proof -
  have fc: "full_cycle
     (\<lambda>hh. if hh = ''05'' then Inl NetworkError
            else if hh = ''00''
              then Inr [\<lparr>lat = Finite 45, lon = Finite (- 122), alt_km = None\<rparr>,
                        \<lparr>lat = Finite 10, lon = Finite 20, alt_km = Some (Finite 12)\<rparr>]
              else Inr [\<lparr>lat = Finite 45, lon = Finite (- 122), alt_km = None\<rparr>])
     (OnThen 0 [\<lparr>lat = Finite 45, lon = Finite (- 122), alt_km = None\<rparr>,
                \<lparr>lat = Finite 10, lon = Finite 20, alt_km = Some (Finite 12)\<rparr>]
        # map (\<lambda>i. OnThen i [\<lparr>lat = Finite 45, lon = Finite (- 122), alt_km = None\<rparr>])
            ([1..<5] @ [6..<24])
        @ [OnCatch 5] @ map OnFinally (rev [0..<24]))"
    by code_simp
  have h: "HOURS ! 0 = ''00''" "HOURS ! 5 = ''05''" "HOURS ! 7 = ''07''"
    by code_simp+
  from variants_agree [OF fc, of useState_init useState_init_all] fc h show ?thesis
    by (simp add: slot_result_def)
qed

section \<open>The caching proxy: claims\<close>

lemma handler_path_relayed:
  assumes "req_method req \<noteq> ''OPTIONS''" "fetch (path_target req) = Some upstream"
  shows "handler_path fetch req res = Inr (relayed upstream res)"
  using assms
  by (simp add: handler_path_def path_target_def Let_def relayed_def setHeader_def
        set_status_def send_def cc_def)

lemma handler_file_relayed:
  assumes "fetch (file_target enc req) = Some upstream"
  shows "handler_file enc fetch req res = Inr (relayed upstream res)"
  using assms
  by (simp add: handler_file_def file_target_def Let_def relayed_def setHeader_def
        set_status_def send_def)

lemma relays_relayed: "relays upstream (relayed upstream res)"
  by (simp add: relays_def relayed_def)

lemma handler_path_preflight:
  assumes "req_method req = ''OPTIONS''"
  shows "handler_path fetch req res =
           Inr (res\<lparr>statusCode := 204,
                    headers := (headers res)
                      (''Access-Control-Allow-Origin'' \<mapsto> ''*'',
                       ''Access-Control-Allow-Methods'' \<mapsto> ''GET, OPTIONS'',
                       ''Access-Control-Allow-Headers'' \<mapsto> ''Content-Type''),
                    ended := True\<rparr>)"
  using assms
  by (simp add: handler_path_def end_response_def set_status_def setHeader_def)

text \<open>
  Claim C9, as stated: for every inbound request both variants answer with the
  upstream's status, a content type and the two cache directives. It fails for an
  \<^verbatim>\<open>OPTIONS\<close> request to the path-based variant, which is answered with 204
  without any upstream call, content type or cache directive.
\<close>

theorem OPTIONS_counterexample:
  "(case handler_path
           (\<lambda>url. Some \<lparr>ok = False, status = 500, content_type = None, body = ''down'',
                         json = None\<rparr>)
           \<lparr>req_method = ''OPTIONS'', query = (\<lambda>k. QUndefined)\<rparr>
           \<lparr>statusCode = 200, headers = Map.empty, payload = '''', ended = False\<rparr> of
      Inr out \<Rightarrow>
        statusCode out = 204 \<and> headers out ''Cache-Control'' = None
        \<and> headers out ''Content-Type'' = None
        \<and> \<not> relays \<lparr>ok = False, status = 500, content_type = None, body = ''down'',
                      json = None\<rparr> out
    | Inl e \<Rightarrow> False)"
  by (simp add: handler_path_def end_response_def set_status_def setHeader_def relays_def)


text \<open>
  Claim C9, amended. For every inbound request that is forwarded (every request to the
  query-based variant, every request but \<^verbatim>\<open>OPTIONS\<close> to the path-based variant)
  and answered by the upstream, the proxy responds with exactly the upstream's status
  code and body, sets Content-Type to the upstream's content type or to application/json
  when that is absent, and attaches Access-Control-Allow-Origin: * and Cache-Control and
  CDN-Cache-Control: max-age=0, s-maxage=60, stale-while-revalidate=300; it changes
  nothing else of the response. An \<^verbatim>\<open>OPTIONS\<close> request to the path-based variant is
  answered with status 204 and the three Access-Control-Allow headers and nothing else:
  every other header (Content-Type, Cache-Control and CDN-Cache-Control among them) and
  the body stay as they were, and the answer is the same whatever the network would
  return, as no upstream call is made.
\<close>

theorem proxy_relays:
  "(req_method req \<noteq> ''OPTIONS'' \<and> fetch (path_target req) = Some upstream \<longrightarrow>
      handler_path fetch req res = Inr (relayed upstream res))
   \<and> (fetch (file_target enc req) = Some upstream \<longrightarrow>
      handler_file enc fetch req res = Inr (relayed upstream res))
   \<and> relays upstream (relayed upstream res)
   \<and> (req_method req = ''OPTIONS'' \<longrightarrow>
      handler_path fetch req res =
        Inr (res\<lparr>statusCode := 204,
                 headers := (headers res)
                   (''Access-Control-Allow-Origin'' \<mapsto> ''*'',
                    ''Access-Control-Allow-Methods'' \<mapsto> ''GET, OPTIONS'',
                    ''Access-Control-Allow-Headers'' \<mapsto> ''Content-Type''),
                 ended := True\<rparr>)
      \<and> handler_path fetch' req res = handler_path fetch req res)"
  by (simp add: handler_path_relayed handler_file_relayed relays_relayed
        handler_path_preflight)

theorem proxy_relays_witness:
  "(case handler_path
           (\<lambda>url. if url = ''https://a.windbornesystems.com/treasure/00.json''
                   then Some \<lparr>ok = False, status = 503, content_type = None,
                              body = ''down'', json = None\<rparr>
                   else None)
           \<lparr>req_method = ''GET'',
            query = (\<lambda>k. if k = ''path'' then QArray [''treasure'', ''00.json'']
                          else QUndefined)\<rparr>
           \<lparr>statusCode = 200, headers = Map.empty, payload = '''', ended = False\<rparr> of
      Inr out \<Rightarrow>
        statusCode out = 503 \<and> headers out ''Content-Type'' = Some ''application/json''
        \<and> headers out ''CDN-Cache-Control'' = Some cc \<and> payload out = ''down''
    | Inl e \<Rightarrow> False)
   \<and> (case handler_file (\<lambda>f. f)
           (\<lambda>url. if url = ''https://a.windbornesystems.com/treasure/00.json''
                   then Some \<lparr>ok = True, status = 200, content_type = Some ''text/plain'',
                              body = ''[]'', json = Some (JArr [])\<rparr>
                   else None)
           \<lparr>req_method = ''GET'',
            query = (\<lambda>k. if k = ''file'' then QString ''00.json'' else QUndefined)\<rparr>
           \<lparr>statusCode = 500, headers = Map.empty, payload = '''', ended = False\<rparr> of
      Inr out \<Rightarrow>
        statusCode out = 200 \<and> headers out ''Content-Type'' = Some ''text/plain''
        \<and> headers out ''Cache-Control'' = Some cc
        \<and> headers out ''Access-Control-Allow-Origin'' = Some ''*''
    | Inl e \<Rightarrow> False)
   \<and> (case handler_path
           (\<lambda>url. Some \<lparr>ok = True, status = 200, content_type = Some ''text/plain'',
                         body = ''[]'', json = Some (JArr [])\<rparr>)
           \<lparr>req_method = ''OPTIONS'',
            query = (\<lambda>k. if k = ''path'' then QString ''treasure/00.json'' else QUndefined)\<rparr>
           \<lparr>statusCode = 200, headers = Map.empty, payload = '''', ended = False\<rparr> of
      Inr out \<Rightarrow>
        statusCode out = 204 \<and> ended out \<and> payload out = ''''
        \<and> headers out ''Access-Control-Allow-Origin'' = Some ''*''
        \<and> headers out ''Content-Type'' = None
        \<and> headers out ''Cache-Control'' = None
        \<and> headers out ''CDN-Cache-Control'' = None
    | Inl e \<Rightarrow> False)"
  using proxy_relays
    [of "\<lparr>req_method = ''GET'',
          query = (\<lambda>k. if k = ''path'' then QArray [''treasure'', ''00.json'']
                        else QUndefined)\<rparr>"
        "\<lambda>url. if url = ''https://a.windbornesystems.com/treasure/00.json''
                   then Some \<lparr>ok = False, status = 503, content_type = None,
                              body = ''down'', json = None\<rparr>
                   else None"
        "\<lparr>ok = False, status = 503, content_type = None, body = ''down'', json = None\<rparr>"
        "\<lparr>statusCode = 200, headers = Map.empty, payload = '''', ended = False\<rparr>"
        "\<lambda>f. f"]
    proxy_relays
    [of "\<lparr>req_method = ''GET'',
          query = (\<lambda>k. if k = ''file'' then QString ''00.json'' else QUndefined)\<rparr>"
        "\<lambda>url. if url = ''https://a.windbornesystems.com/treasure/00.json''
                   then Some \<lparr>ok = True, status = 200, content_type = Some ''text/plain'',
                              body = ''[]'', json = Some (JArr [])\<rparr>
                   else None"
        "\<lparr>ok = True, status = 200, content_type = Some ''text/plain'', body = ''[]'',
          json = Some (JArr [])\<rparr>"
        "\<lparr>statusCode = 500, headers = Map.empty, payload = '''', ended = False\<rparr>"
        "\<lambda>f. f"]
    proxy_relays
    [of "\<lparr>req_method = ''OPTIONS'',
          query = (\<lambda>k. if k = ''path'' then QString ''treasure/00.json'' else QUndefined)\<rparr>"
        "\<lambda>url. Some \<lparr>ok = True, status = 200, content_type = Some ''text/plain'',
                         body = ''[]'', json = Some (JArr [])\<rparr>"
        "\<lparr>ok = True, status = 200, content_type = Some ''text/plain'', body = ''[]'',
          json = Some (JArr [])\<rparr>"
        "\<lparr>statusCode = 200, headers = Map.empty, payload = '''', ended = False\<rparr>"
        "\<lambda>f. f"]
  by (simp add: path_target_def file_target_def relayed_def cc_def)

end
